theory Spec2Isabelle
  imports Main
begin

section \<open>Text values\<close>

text \<open>
  A Python \<^verbatim>\<open>str\<close> is a sequence of Unicode code points, so text is a list of
  code points (natural numbers) here. \<^verbatim>\<open>str.strip()\<close> without arguments removes the
  leading and the trailing run of whitespace code points; the whitespace code points are
  those of \<^verbatim>\<open>str.isspace\<close>.
\<close>

type_synonym pystr = "nat list"

definition isspace :: "nat \<Rightarrow> bool" where
  "isspace c =
     ((9 \<le> c \<and> c \<le> 13) \<or> (28 \<le> c \<and> c \<le> 32) \<or> c = 133 \<or> c = 160 \<or> c = 5760 \<or>
      (8192 \<le> c \<and> c \<le> 8202) \<or> c = 8232 \<or> c = 8233 \<or> c = 8239 \<or> c = 8287 \<or>
      c = 12288)"

definition strip :: "pystr \<Rightarrow> pystr" where
  "strip t = rev (dropWhile isspace (rev (dropWhile isspace t)))"

definition startswith :: "pystr \<Rightarrow> pystr \<Rightarrow> bool" where
  "startswith t p = (take (length p) t = p)"

text \<open>The literal \<^verbatim>\<open>"file://"\<close> and the file name \<^verbatim>\<open>"voice_input.wav"\<close>.\<close>

definition file_scheme :: pystr where
  "file_scheme = [102, 105, 108, 101, 58, 47, 47]"

definition voice_input_wav :: pystr where
  "voice_input_wav = [118, 111, 105, 99, 101, 95, 105, 110, 112, 117, 116, 46, 119, 97, 118]"

text \<open>
  \<^verbatim>\<open>os.path.join(tempfile.gettempdir(), "voice_input.wav")\<close> on a POSIX system: the
  separator \<^verbatim>\<open>/\<close> (code point 47) is inserted unless the directory is empty or ends
  with it.
\<close>

definition voice_input_path :: "pystr \<Rightarrow> pystr" where
  "voice_input_path tmpdir =
     (if tmpdir = [] \<or> last tmpdir = 47 then tmpdir @ voice_input_wav
      else tmpdir @ [47] @ voice_input_wav)"

section \<open>The log area, the agent and the interface state\<close>

text \<open>
  Every call of \<^verbatim>\<open>add_log\<close> appends one line to \<^verbatim>\<open>log_area.controls\<close>. Each call
  site of the source formats its own message, so a line is one constructor per call site,
  carrying the interpolated values:
  \<^verbatim>\<open>"You: {task}"\<close>, \<^verbatim>\<open>"Starting: {task}"\<close>, \<^verbatim>\<open>"Thinking..."\<close>, the thinking line,
  the action line, the final message line, \<^verbatim>\<open>"Error: {e}"\<close>, \<^verbatim>\<open>"Listening..."\<close>,
  \<^verbatim>\<open>"Transcribing..."\<close>, the transcribed text line, \<^verbatim>\<open>"Failed."\<close> and
  \<^verbatim>\<open>"ASR Error: {e}"\<close>. Colours and font weights are presentation only and are left out.
\<close>

datatype log_line =
    LogYou pystr
  | LogStarting pystr
  | LogThinkingPlaceholder
  | LogThinking pystr
  | LogActing pystr
  | LogFinished "pystr option"
  | LogError pystr
  | LogListening
  | LogTranscribing
  | LogTranscribed pystr
  | LogFailed
  | LogASRError pystr

text \<open>
  The agent (\<^verbatim>\<open>PhoneAgent\<close>) is an external library: \<^verbatim>\<open>agent.step\<close> returns an object
  with the attributes \<^verbatim>\<open>thinking\<close>, \<^verbatim>\<open>action\<close>, \<^verbatim>\<open>finished\<close> and \<^verbatim>\<open>message\<close>,
  or raises. What it answers is an input of the model; the calls made to it are recorded.
\<close>

record step_result =
  thinking :: pystr
  action :: pystr
  finished :: bool
  message :: "pystr option"

datatype step_outcome = StepReturns step_result | StepRaises pystr

datatype ext_call = AgentReset | AgentStep "pystr option" | HttpPost pystr

text \<open>
  \<^verbatim>\<open>run_agent_task\<close> is a coroutine: \<^verbatim>\<open>page.run_task\<close> schedules it, and it is
  suspended at every \<^verbatim>\<open>await asyncio.to_thread(agent.step, ...)\<close>, where other handlers
  may run.
\<close>

datatype task_state = Scheduled pystr | AwaitingStep | Completed

type_synonym chunk = "int list"

text \<open>
  The mutable data the closures of \<^verbatim>\<open>main\<close> share: the dictionary \<^verbatim>\<open>state\<close>
  (\<^verbatim>\<open>is_recording\<close>, \<^verbatim>\<open>samplerate\<close>, and whether the key \<^verbatim>\<open>stream\<close> is present),
  the list \<^verbatim>\<open>recording_data\<close>, \<^verbatim>\<open>input_field.value\<close>, \<^verbatim>\<open>voice_button.disabled\<close>,
  the controls of \<^verbatim>\<open>log_area\<close>, the calls made to the agent and to the transcription
  service so far, and the coroutines handed to \<^verbatim>\<open>page.run_task\<close>.
\<close>

record ui_state =
  is_recording :: bool
  samplerate :: nat
  has_stream :: bool
  recording_data :: "chunk list"
  input_value :: pystr
  button_disabled :: bool
  log_area :: "log_line list"
  calls :: "ext_call list"
  tasks :: "task_state list"

definition init_state :: ui_state where
  "init_state =
     \<lparr>is_recording = False, samplerate = 44100, has_stream = False, recording_data = [],
      input_value = [], button_disabled = False, log_area = [], calls = [], tasks = []\<rparr>"

definition add_log :: "log_line \<Rightarrow> ui_state \<Rightarrow> ui_state" where
  "add_log line s = s\<lparr>log_area := log_area s @ [line]\<rparr>"

definition call :: "ext_call \<Rightarrow> ui_state \<Rightarrow> ui_state" where
  "call c s = s\<lparr>calls := calls s @ [c]\<rparr>"

section \<open>transcribe_audio\<close>

text \<open>
  Here and in the handlers below, a raise is the raise of an \<^verbatim>\<open>Exception\<close>, given by
  its message \<^verbatim>\<open>str(e)\<close>, and the field \<^verbatim>\<open>text\<close> of a reply is absent or a text;
  the last section of definitions lifts both restrictions.

  The outcome of \<^verbatim>\<open>requests.post\<close> and of reading the response: the call raises, or
  \<^verbatim>\<open>raise_for_status\<close> raises for a status of 400 or more, or \<^verbatim>\<open>response.json()\<close>
  raises, or the decoded value has no \<^verbatim>\<open>get\<close> (it is not an object), or it is an
  object, of which only the textual field \<^verbatim>\<open>text\<close> matters (absent or present).
\<close>

datatype http_outcome =
    PostRaises pystr
  | HttpError nat pystr
  | JsonRaises pystr
  | NotAnObject pystr
  | JsonObject "pystr option"

text \<open>
  What the file system and the service do during one call of \<^verbatim>\<open>transcribe_audio\<close>:
  \<open>open_outcome = Some e\<close> says that \<^verbatim>\<open>open(file_path, "rb")\<close> raises.
\<close>

record asr_env =
  open_outcome :: "pystr option"
  response :: http_outcome

definition local_path :: "pystr \<Rightarrow> pystr" where
  "local_path file_path =
     (if startswith file_path file_scheme then drop 7 file_path else file_path)"

text \<open>
  The body of the \<^verbatim>\<open>try\<close> block: \<open>Inl e\<close> is an exception with \<^verbatim>\<open>str(e) = e\<close>.
\<close>

definition transcribe_body :: "asr_env \<Rightarrow> pystr \<Rightarrow> ui_state \<Rightarrow> (pystr + pystr) \<times> ui_state" where
  "transcribe_body env file_path s =
     (let p = local_path file_path in
      case open_outcome env of
        Some e \<Rightarrow> (Inl e, s)
      | None \<Rightarrow>
          (let s' = call (HttpPost p) s in
           case response env of
             PostRaises e \<Rightarrow> (Inl e, s')
           | HttpError status e \<Rightarrow> (Inl e, s')
           | JsonRaises e \<Rightarrow> (Inl e, s')
           | NotAnObject e \<Rightarrow> (Inl e, s')
           | JsonObject None \<Rightarrow> (Inr [], s')
           | JsonObject (Some t) \<Rightarrow> (Inr t, s')))"

definition transcribe_audio :: "asr_env \<Rightarrow> pystr option \<Rightarrow> ui_state \<Rightarrow> pystr \<times> ui_state" where
  "transcribe_audio env file_path s =
     (case file_path of
        None \<Rightarrow> ([], s)
      | Some p \<Rightarrow>
          if p = [] then ([], s)
          else (case transcribe_body env p s of
                  (Inr t, s') \<Rightarrow> (t, s')
                | (Inl e, s') \<Rightarrow> ([], add_log (LogASRError e) s')))"

section \<open>run_agent_task\<close>

text \<open>
  From the start of the coroutine to its first suspension; the first argument is what
  \<^verbatim>\<open>agent.reset()\<close> does (\<open>Some e\<close>: it raises).
\<close>

definition run_agent_task_begin :: "pystr option \<Rightarrow> pystr \<Rightarrow> ui_state \<Rightarrow> task_state \<times> ui_state" where
  "run_agent_task_begin reset_outcome task s =
     (let s1 = call AgentReset (add_log (LogStarting task) s) in
      case reset_outcome of
        Some e \<Rightarrow> (Completed, add_log (LogError e) s1)
      | None \<Rightarrow> (AwaitingStep, call (AgentStep (Some task)) (add_log LogThinkingPlaceholder s1)))"

text \<open>From the return of one \<^verbatim>\<open>agent.step\<close> call to the next suspension or the end.\<close>

definition run_agent_task_resume :: "step_outcome \<Rightarrow> ui_state \<Rightarrow> task_state \<times> ui_state" where
  "run_agent_task_resume outcome s =
     (case outcome of
        StepRaises e \<Rightarrow> (Completed, add_log (LogError e) s)
      | StepReturns r \<Rightarrow>
          (let s1 = add_log (LogActing (action r)) (add_log (LogThinking (thinking r)) s) in
           if finished r then (Completed, add_log (LogFinished (message r)) s1)
           else (AwaitingStep, call (AgentStep None) s1)))"

section \<open>send_message\<close>

definition send_message :: "ui_state \<Rightarrow> ui_state" where
  "send_message s =
     (let task = strip (input_value s) in
      if task = [] then s
      else (add_log (LogYou task) (s\<lparr>input_value := []\<rparr>))\<lparr>tasks := tasks s @ [Scheduled task]\<rparr>)"

section \<open>on_voice_click\<close>

text \<open>
  What the audio device and the file system do during one click: \<^verbatim>\<open>sd.query_devices\<close>
  raises, or the \<^verbatim>\<open>InputStream\<close> constructor raises, or \<^verbatim>\<open>start\<close> raises, or all
  succeed (with the device's sample rate); \<^verbatim>\<open>stop\<close> and \<^verbatim>\<open>close\<close> of the stream;
  \<^verbatim>\<open>np.concatenate\<close> and \<^verbatim>\<open>write\<close>; the temporary directory; the transcription.
\<close>

datatype device_outcome =
    QueryRaises pystr
  | StreamCtorRaises nat pystr
  | StreamStartRaises nat pystr
  | DeviceOk nat

record click_env =
  device :: device_outcome
  stream_stop :: "pystr option"
  stream_close :: "pystr option"
  wav_write :: "pystr option"
  tempdir :: pystr
  asr :: asr_env

text \<open>
  The two \<^verbatim>\<open>try\<close> blocks; \<open>Inl (e, s)\<close> is an exception raised in state \<open>s\<close>.
  The click that stops a recording awaits \<^verbatim>\<open>transcribe_audio\<close> in a thread; the
  click is taken as one step, with no other handler running while it waits. The icon of
  the button and the pulsing of \<^verbatim>\<open>animate_recording\<close> are presentation only and are
  left out, as is \<^verbatim>\<open>toggle_input_mode\<close>, which changes visibility only.
\<close>

definition start_recording_body :: "click_env \<Rightarrow> ui_state \<Rightarrow> (pystr \<times> ui_state) + ui_state" where
  "start_recording_body env s =
     (let s1 = s\<lparr>recording_data := [], is_recording := True\<rparr> in
      case device env of
        QueryRaises e \<Rightarrow> Inl (e, s1)
      | StreamCtorRaises rate e \<Rightarrow> Inl (e, s1\<lparr>samplerate := rate\<rparr>)
      | StreamStartRaises rate e \<Rightarrow> Inl (e, s1\<lparr>samplerate := rate, has_stream := True\<rparr>)
      | DeviceOk rate \<Rightarrow> Inr (add_log LogListening (s1\<lparr>samplerate := rate, has_stream := True\<rparr>)))"

definition close_stream :: "click_env \<Rightarrow> ui_state \<Rightarrow> pystr option" where
  "close_stream env s =
     (if has_stream s
      then (case stream_stop env of Some e \<Rightarrow> Some e | None \<Rightarrow> stream_close env)
      else None)"

definition stop_recording_body :: "click_env \<Rightarrow> ui_state \<Rightarrow> (pystr \<times> ui_state) + ui_state" where
  "stop_recording_body env s =
     (let s1 = s\<lparr>button_disabled := True\<rparr> in
      case close_stream env s1 of
        Some e \<Rightarrow> Inl (e, s1)
      | None \<Rightarrow>
          (let s2 = s1\<lparr>is_recording := False, button_disabled := False\<rparr> in
           if recording_data s2 = [] then Inr s2
           else (case wav_write env of
                   Some e \<Rightarrow> Inl (e, s2)
                 | None \<Rightarrow>
                     (case transcribe_audio (asr env) (Some (voice_input_path (tempdir env)))
                             (add_log LogTranscribing s2) of
                        (text, s4) \<Rightarrow>
                          if text \<noteq> []
                          then Inr (send_message (add_log (LogTranscribed text) (s4\<lparr>input_value := text\<rparr>)))
                          else Inr (add_log LogFailed s4)))))"

definition on_voice_click :: "click_env \<Rightarrow> ui_state \<Rightarrow> ui_state" where
  "on_voice_click env s =
     (if \<not> is_recording s
      then (case start_recording_body env s of
              Inr s' \<Rightarrow> s'
            | Inl (e, s') \<Rightarrow> (add_log (LogError e) s')\<lparr>is_recording := False\<rparr>)
      else (case stop_recording_body env s of
              Inr s' \<Rightarrow> s'
            | Inl (e, s') \<Rightarrow>
                (add_log (LogError e) s')\<lparr>is_recording := False, button_disabled := False\<rparr>))"

section \<open>Operations in sequence\<close>

text \<open>
  What can happen to the interface, one at a time: the user edits the input field, presses
  send, clicks the voice button; the audio driver delivers a chunk (\<^verbatim>\<open>audio_callback\<close>);
  the event loop starts a scheduled \<^verbatim>\<open>run_agent_task\<close>; an \<^verbatim>\<open>agent.step\<close> call of a
  suspended one returns or raises. The coroutines are numbered in the order
  \<^verbatim>\<open>page.run_task\<close> received them.
\<close>

datatype ui_op =
    TypeText pystr
  | Submit
  | VoiceClick click_env
  | AudioCallback chunk
  | TaskBegin nat "pystr option"
  | TaskResume nat step_outcome

definition set_task :: "nat \<Rightarrow> task_state \<times> ui_state \<Rightarrow> ui_state" where
  "set_task i r = (snd r)\<lparr>tasks := (tasks (snd r))[i := fst r]\<rparr>"

fun ui_step :: "ui_op \<Rightarrow> ui_state \<Rightarrow> ui_state" where
  "ui_step (TypeText t) s = s\<lparr>input_value := t\<rparr>"
| "ui_step Submit s = send_message s"
| "ui_step (VoiceClick env) s = on_voice_click env s"
| "ui_step (AudioCallback c) s = s\<lparr>recording_data := recording_data s @ [c]\<rparr>"
| "ui_step (TaskBegin i reset_outcome) s =
     (if i < length (tasks s)
      then (case tasks s ! i of
              Scheduled task \<Rightarrow> set_task i (run_agent_task_begin reset_outcome task s)
            | _ \<Rightarrow> s)
      else s)"
| "ui_step (TaskResume i outcome) s =
     (if i < length (tasks s)
      then (case tasks s ! i of
              AwaitingStep \<Rightarrow> set_task i (run_agent_task_resume outcome s)
            | _ \<Rightarrow> s)
      else s)"

fun run_ops :: "ui_op list \<Rightarrow> ui_state \<Rightarrow> ui_state" where
  "run_ops [] s = s"
| "run_ops (x # xs) s = run_ops xs (ui_step x s)"

text \<open>
  Nothing is in progress: no recording, the voice button enabled, no coroutine scheduled
  or suspended.
\<close>

definition idle :: "ui_state \<Rightarrow> bool" where
  "idle s = (\<not> is_recording s \<and> \<not> button_disabled s \<and> list_all (\<lambda>t. t = Completed) (tasks s))"

section \<open>Vocabulary of the properties\<close>

text \<open>The message of the exception a failing request raises, if it fails.\<close>

definition request_error :: "http_outcome \<Rightarrow> pystr option" where
  "request_error r =
     (case r of
        PostRaises e \<Rightarrow> Some e
      | HttpError status e \<Rightarrow> Some e
      | JsonRaises e \<Rightarrow> Some e
      | NotAnObject e \<Rightarrow> Some e
      | JsonObject t \<Rightarrow> None)"

definition asr_error :: "asr_env \<Rightarrow> pystr option" where
  "asr_error env =
     (case open_outcome env of Some e \<Rightarrow> Some e | None \<Rightarrow> request_error (response env))"

text \<open>The exception raised while the stream is closed or the recording is written.\<close>

definition capture_error :: "click_env \<Rightarrow> ui_state \<Rightarrow> pystr option" where
  "capture_error env s =
     (case close_stream env s of
        Some e \<Rightarrow> Some e
      | None \<Rightarrow> if recording_data s = [] then None else wav_write env)"

text \<open>The two lines the loop of \<^verbatim>\<open>run_agent_task\<close> logs for each step result.\<close>

definition step_lines :: "step_result list \<Rightarrow> log_line list" where
  "step_lines rs = concat (map (\<lambda>r. [LogThinking (thinking r), LogActing (action r)]) rs)"

text \<open>
  One task from beginning to end, with nothing else in between: typed and sent, or spoken
  (a click, the chunks the driver delivers, a second click). \<open>i\<close> is the number of the
  coroutine, \<open>outcomes\<close> what the successive \<^verbatim>\<open>agent.step\<close> calls do.
\<close>

definition typed_task_ops :: "nat \<Rightarrow> pystr \<Rightarrow> pystr option \<Rightarrow> step_outcome list \<Rightarrow> ui_op list" where
  "typed_task_ops i t reset_outcome outcomes =
     [TypeText t, Submit, TaskBegin i reset_outcome] @ map (TaskResume i) outcomes"

definition voice_task_ops ::
  "nat \<Rightarrow> click_env \<Rightarrow> chunk list \<Rightarrow> click_env \<Rightarrow> pystr option \<Rightarrow> step_outcome list \<Rightarrow> ui_op list" where
  "voice_task_ops i env1 chunks env2 reset_outcome outcomes =
     VoiceClick env1 # map AudioCallback chunks @
     [VoiceClick env2, TaskBegin i reset_outcome] @ map (TaskResume i) outcomes"

text \<open>
  The lines of a successful task as the code logs them (\<open>heard\<close> is the transcribed text
  of a spoken task), and the sequence the specification gives for it: \<open>Listening\<close> and
  \<open>Transcribing\<close> for a spoken task, \<open>Started\<close>, the pairs \<open>Thinking\<close>, \<open>Acting\<close>,
  then \<open>Finished\<close>. The lines the specification has no event for are the echo of the
  submitted text, the placeholder \<^verbatim>\<open>"Thinking..."\<close> and the transcribed text.
\<close>

definition code_success_events ::
  "pystr option \<Rightarrow> pystr \<Rightarrow> step_result list \<Rightarrow> step_result \<Rightarrow> log_line list" where
  "code_success_events heard task rs r =
     (case heard of None \<Rightarrow> [] | Some t \<Rightarrow> [LogListening, LogTranscribing, LogTranscribed t]) @
     [LogYou task, LogStarting task, LogThinkingPlaceholder] @
     step_lines (rs @ [r]) @ [LogFinished (message r)]"

definition spec_success_events ::
  "bool \<Rightarrow> pystr \<Rightarrow> step_result list \<Rightarrow> step_result \<Rightarrow> log_line list" where
  "spec_success_events voice task rs r =
     (if voice then [LogListening, LogTranscribing] else []) @
     [LogStarting task] @ step_lines (rs @ [r]) @ [LogFinished (message r)]"

fun echo_line :: "log_line \<Rightarrow> bool" where
  "echo_line (LogYou t) = True"
| "echo_line LogThinkingPlaceholder = True"
| "echo_line (LogTranscribed t) = True"
| "echo_line _ = False"

text \<open>
  The state machine of the specification: its four states, its operations and the column
  \<open>Valid from\<close> of its transition table. The interface keeps no such state; what it keeps
  is read as \<open>Recording\<close> while \<^verbatim>\<open>is_recording\<close> is set, as \<open>Running\<close> while a
  coroutine is scheduled or suspended, and as \<open>Idle\<close> otherwise (\<open>Transcribing\<close> lies
  inside one click).
\<close>

datatype orch_state = Idle | Recording | Transcribing | Running

datatype orch_op = StartRecording | StopRecording | SubmitTask pystr | Cancel

fun spec_valid_from :: "orch_op \<Rightarrow> orch_state \<Rightarrow> bool" where
  "spec_valid_from StartRecording st = (st = Idle)"
| "spec_valid_from StopRecording st = (st = Recording)"
| "spec_valid_from (SubmitTask t) st = (st = Idle)"
| "spec_valid_from Cancel st = (st = Recording \<or> st = Running)"

definition orch_state_of :: "ui_state \<Rightarrow> orch_state" where
  "orch_state_of s =
     (if is_recording s then Recording
      else if list_all (\<lambda>t. t = Completed) (tasks s) then Idle
      else Running)"

text \<open>
  Example inputs: an environment in which the device, the stream and the file system work
  and the service answers \<open>r\<close>; the state after a first click and one delivered chunk;
  the state in which a typed task awaits its first step; two step results.
\<close>

definition working_env :: "http_outcome \<Rightarrow> click_env" where
  "working_env r =
     \<lparr>device = DeviceOk 48000, stream_stop = None, stream_close = None, wav_write = None,
      tempdir = [47, 116, 109, 112], asr = \<lparr>open_outcome = None, response = r\<rparr>\<rparr>"

definition recording_state :: ui_state where
  "recording_state =
     run_ops [VoiceClick (working_env (JsonObject None)), AudioCallback [0, 1]] init_state"

definition running_state :: ui_state where
  "running_state = run_ops [TypeText [103, 111], Submit, TaskBegin 0 None] init_state"

definition last_step :: step_result where
  "last_step = \<lparr>thinking = [118], action = [110], finished = True, message = Some [100]\<rparr>"

definition first_step :: step_result where
  "first_step = \<lparr>thinking = [112], action = [116], finished = False, message = None\<rparr>"

section \<open>Exceptions outside Exception, replies that are no text\<close>

text \<open>
  Every handler of the source is \<^verbatim>\<open>except Exception\<close>. In the definitions above each
  raise is an \<^verbatim>\<open>Exception\<close>, given by its message, and the field \<^verbatim>\<open>text\<close> of a
  reply is absent or a text. The definitions of this section translate the same functions
  without these two restrictions. An exception is an \<^verbatim>\<open>Exception\<close> or lies outside it
  (\<^verbatim>\<open>asyncio.CancelledError\<close>, \<^verbatim>\<open>KeyboardInterrupt\<close>, \<^verbatim>\<open>SystemExit\<close>), each with
  its message; a handler catches the first kind only, and the second leaves the function.
\<close>

datatype exn = Exception pystr | BaseException pystr

text \<open>
  What \<^verbatim>\<open>response.json()\<close> returns: \<^verbatim>\<open>None\<close>, a truth value, a number (the
  integers stand for all numbers), a text, a list, or a dictionary. A dictionary is given
  by the members of the JSON object in their order; for a name that occurs twice the last
  member counts.
\<close>

datatype json =
    JNull
  | JBool bool
  | JNumber int
  | JString pystr
  | JArray "json list"
  | JObject "(pystr \<times> json) list"

definition text_key :: pystr where
  "text_key = [116, 101, 120, 116]"

text \<open>\<^verbatim>\<open>value.get("text", "")\<close> for a dictionary.\<close>

definition get_text :: "(pystr \<times> json) list \<Rightarrow> json" where
  "get_text members = (case map_of (rev members) text_key of None \<Rightarrow> JString [] | Some v \<Rightarrow> v)"

text \<open>
  What each call inside \<^verbatim>\<open>transcribe_audio\<close> does: \<^verbatim>\<open>open\<close>,
  \<^verbatim>\<open>requests.post\<close>, \<^verbatim>\<open>raise_for_status\<close> (\<open>Some x\<close>: it raises \<open>x\<close>),
  \<^verbatim>\<open>response.json()\<close> (it raises or returns a value), and the message of the
  \<^verbatim>\<open>AttributeError\<close> that \<^verbatim>\<open>.get\<close> raises on a value that is no dictionary.
\<close>

record asr_calls =
  opened :: "exn option"
  posted :: "exn option"
  status_checked :: "exn option"
  decoded :: "exn + json"
  no_get :: pystr

definition transcribe_body_full ::
  "asr_calls \<Rightarrow> pystr \<Rightarrow> ui_state \<Rightarrow> (exn + json) \<times> ui_state" where
  "transcribe_body_full env file_path s =
     (let p = local_path file_path in
      case opened env of
        Some x \<Rightarrow> (Inl x, s)
      | None \<Rightarrow>
          (let s' = call (HttpPost p) s in
           case posted env of
             Some x \<Rightarrow> (Inl x, s')
           | None \<Rightarrow>
               (case status_checked env of
                  Some x \<Rightarrow> (Inl x, s')
                | None \<Rightarrow>
                    (case decoded env of
                       Inl x \<Rightarrow> (Inl x, s')
                     | Inr (JObject members) \<Rightarrow> (Inr (get_text members), s')
                     | Inr _ \<Rightarrow> (Inl (Exception (no_get env)), s')))))"

text \<open>
  The result is the value returned, or \<open>Inl x\<close> when the exception \<open>x\<close> leaves the
  function.
\<close>

definition transcribe_audio_full ::
  "asr_calls \<Rightarrow> pystr option \<Rightarrow> ui_state \<Rightarrow> (exn + json) \<times> ui_state" where
  "transcribe_audio_full env file_path s =
     (case file_path of
        None \<Rightarrow> (Inr (JString []), s)
      | Some p \<Rightarrow>
          if p = [] then (Inr (JString []), s)
          else (case transcribe_body_full env p s of
                  (Inr v, s') \<Rightarrow> (Inr v, s')
                | (Inl (Exception e), s') \<Rightarrow> (Inr (JString []), add_log (LogASRError e) s')
                | (Inl (BaseException e), s') \<Rightarrow> (Inl (BaseException e), s')))"

text \<open>
  The coroutine: \<open>Inl e\<close> says that it ends because the exception with message \<open>e\<close>,
  which no handler catches, leaves it.
\<close>

definition run_agent_task_begin_full ::
  "exn option \<Rightarrow> pystr \<Rightarrow> ui_state \<Rightarrow> (pystr + task_state) \<times> ui_state" where
  "run_agent_task_begin_full reset_result task s =
     (let s1 = call AgentReset (add_log (LogStarting task) s) in
      case reset_result of
        Some (Exception e) \<Rightarrow> (Inr Completed, add_log (LogError e) s1)
      | Some (BaseException e) \<Rightarrow> (Inl e, s1)
      | None \<Rightarrow>
          (Inr AwaitingStep, call (AgentStep (Some task)) (add_log LogThinkingPlaceholder s1)))"

definition run_agent_task_resume_full ::
  "exn + step_result \<Rightarrow> ui_state \<Rightarrow> (pystr + task_state) \<times> ui_state" where
  "run_agent_task_resume_full step_exit s =
     (case step_exit of
        Inl (Exception e) \<Rightarrow> (Inr Completed, add_log (LogError e) s)
      | Inl (BaseException e) \<Rightarrow> (Inl e, s)
      | Inr r \<Rightarrow>
          (let s1 = add_log (LogActing (action r)) (add_log (LogThinking (thinking r)) s) in
           if finished r then (Inr Completed, add_log (LogFinished (message r)) s1)
           else (Inr AwaitingStep, call (AgentStep None) s1)))"

text \<open>
  What each call of one click does: \<^verbatim>\<open>sd.query_devices\<close> with the conversion of the
  sample rate (it raises or gives the rate), the \<^verbatim>\<open>InputStream\<close> constructor,
  \<^verbatim>\<open>start\<close>, \<^verbatim>\<open>stop\<close>, \<^verbatim>\<open>close\<close>, \<^verbatim>\<open>np.concatenate\<close> with \<^verbatim>\<open>write\<close>,
  the temporary directory, the transcription (with a reply whose text is absent or a
  text), and the \<^verbatim>\<open>await\<close> of the transcription, which raises when the click is
  cancelled or interrupted while it waits, or when an exception outside
  \<^verbatim>\<open>Exception\<close> leaves \<^verbatim>\<open>transcribe_audio\<close>; what the thread does after that is
  not part of the click.
\<close>

record click_calls =
  queried :: "exn + nat"
  constructed :: "exn option"
  started :: "exn option"
  stopped :: "exn option"
  closed :: "exn option"
  written :: "exn option"
  tmpdir :: pystr
  transcribing :: asr_env
  awaited :: "exn option"

definition start_recording_body_full ::
  "click_calls \<Rightarrow> ui_state \<Rightarrow> (exn \<times> ui_state) + ui_state" where
  "start_recording_body_full env s =
     (let s1 = s\<lparr>recording_data := [], is_recording := True\<rparr> in
      case queried env of
        Inl x \<Rightarrow> Inl (x, s1)
      | Inr rate \<Rightarrow>
          (let s2 = s1\<lparr>samplerate := rate\<rparr> in
           case constructed env of
             Some x \<Rightarrow> Inl (x, s2)
           | None \<Rightarrow>
               (let s3 = s2\<lparr>has_stream := True\<rparr> in
                case started env of
                  Some x \<Rightarrow> Inl (x, s3)
                | None \<Rightarrow> Inr (add_log LogListening s3))))"

definition close_stream_full :: "click_calls \<Rightarrow> ui_state \<Rightarrow> exn option" where
  "close_stream_full env s =
     (if has_stream s
      then (case stopped env of Some x \<Rightarrow> Some x | None \<Rightarrow> closed env)
      else None)"

definition stop_recording_body_full ::
  "click_calls \<Rightarrow> ui_state \<Rightarrow> (exn \<times> ui_state) + ui_state" where
  "stop_recording_body_full env s =
     (let s1 = s\<lparr>button_disabled := True\<rparr> in
      case close_stream_full env s1 of
        Some x \<Rightarrow> Inl (x, s1)
      | None \<Rightarrow>
          (let s2 = s1\<lparr>is_recording := False, button_disabled := False\<rparr> in
           if recording_data s2 = [] then Inr s2
           else (case written env of
                   Some x \<Rightarrow> Inl (x, s2)
                 | None \<Rightarrow>
                     (let s3 = add_log LogTranscribing s2 in
                      case awaited env of
                        Some x \<Rightarrow> Inl (x, s3)
                      | None \<Rightarrow>
                          (case transcribe_audio (transcribing env)
                                  (Some (voice_input_path (tmpdir env))) s3 of
                             (text, s4) \<Rightarrow>
                               if text \<noteq> []
                               then Inr (send_message
                                           (add_log (LogTranscribed text) (s4\<lparr>input_value := text\<rparr>)))
                               else Inr (add_log LogFailed s4))))))"

text \<open>
  The result is the state in which the handler returns, or \<open>Inl (e, s)\<close> when the
  exception with message \<open>e\<close> leaves the handler in state \<open>s\<close>.
\<close>

definition on_voice_click_full :: "click_calls \<Rightarrow> ui_state \<Rightarrow> (pystr \<times> ui_state) + ui_state" where
  "on_voice_click_full env s =
     (if \<not> is_recording s
      then (case start_recording_body_full env s of
              Inr s' \<Rightarrow> Inr s'
            | Inl (Exception e, s') \<Rightarrow> Inr ((add_log (LogError e) s')\<lparr>is_recording := False\<rparr>)
            | Inl (BaseException e, s') \<Rightarrow> Inl (e, s'))
      else (case stop_recording_body_full env s of
              Inr s' \<Rightarrow> Inr s'
            | Inl (Exception e, s') \<Rightarrow>
                Inr ((add_log (LogError e) s')\<lparr>is_recording := False, button_disabled := False\<rparr>)
            | Inl (BaseException e, s') \<Rightarrow> Inl (e, s')))"

text \<open>
  The environments of the first kind among those of the second: every raise an
  \<^verbatim>\<open>Exception\<close>, the text of the reply absent or a text, the \<^verbatim>\<open>await\<close> undisturbed.
\<close>

definition asr_calls_of :: "asr_env \<Rightarrow> asr_calls" where
  "asr_calls_of env =
     \<lparr>opened = map_option Exception (open_outcome env),
      posted = (case response env of PostRaises e \<Rightarrow> Some (Exception e) | _ \<Rightarrow> None),
      status_checked = (case response env of HttpError status e \<Rightarrow> Some (Exception e) | _ \<Rightarrow> None),
      decoded =
        (case response env of
           JsonRaises e \<Rightarrow> Inl (Exception e)
         | JsonObject None \<Rightarrow> Inr (JObject [])
         | JsonObject (Some t) \<Rightarrow> Inr (JObject [(text_key, JString t)])
         | _ \<Rightarrow> Inr JNull),
      no_get = (case response env of NotAnObject e \<Rightarrow> e | _ \<Rightarrow> [])\<rparr>"

definition click_calls_of :: "click_env \<Rightarrow> click_calls" where
  "click_calls_of env =
     \<lparr>queried =
        (case device env of
           QueryRaises e \<Rightarrow> Inl (Exception e)
         | StreamCtorRaises rate e \<Rightarrow> Inr rate
         | StreamStartRaises rate e \<Rightarrow> Inr rate
         | DeviceOk rate \<Rightarrow> Inr rate),
      constructed =
        (case device env of StreamCtorRaises rate e \<Rightarrow> Some (Exception e) | _ \<Rightarrow> None),
      started =
        (case device env of StreamStartRaises rate e \<Rightarrow> Some (Exception e) | _ \<Rightarrow> None),
      stopped = map_option Exception (stream_stop env),
      closed = map_option Exception (stream_close env),
      written = map_option Exception (wav_write env),
      tmpdir = tempdir env,
      transcribing = asr env,
      awaited = None\<rparr>"

definition step_exit_of :: "step_outcome \<Rightarrow> exn + step_result" where
  "step_exit_of outcome =
     (case outcome of StepReturns r \<Rightarrow> Inr r | StepRaises e \<Rightarrow> Inl (Exception e))"

text \<open>
  The exception the calls of \<^verbatim>\<open>transcribe_audio\<close> raise first, if any; the one raised
  while the device is opened; the one raised while the stream is closed and the recording
  written.
\<close>

definition asr_raise :: "asr_calls \<Rightarrow> exn option" where
  "asr_raise env =
     (case opened env of
        Some x \<Rightarrow> Some x
      | None \<Rightarrow>
          (case posted env of
             Some x \<Rightarrow> Some x
           | None \<Rightarrow>
               (case status_checked env of
                  Some x \<Rightarrow> Some x
                | None \<Rightarrow>
                    (case decoded env of
                       Inl x \<Rightarrow> Some x
                     | Inr (JObject members) \<Rightarrow> None
                     | Inr _ \<Rightarrow> Some (Exception (no_get env))))))"

definition start_raise :: "click_calls \<Rightarrow> exn option" where
  "start_raise env =
     (case queried env of
        Inl x \<Rightarrow> Some x
      | Inr rate \<Rightarrow> (case constructed env of Some x \<Rightarrow> Some x | None \<Rightarrow> started env))"

definition capture_raise :: "click_calls \<Rightarrow> ui_state \<Rightarrow> exn option" where
  "capture_raise env s =
     (case close_stream_full env s of
        Some x \<Rightarrow> Some x
      | None \<Rightarrow> if recording_data s = [] then None else written env)"

text \<open>
  Example inputs: the calls of a click in which everything works and the service gives no
  text; the calls of a transcription that decodes the reply \<open>v\<close>.
\<close>

definition working_calls :: click_calls where
  "working_calls = click_calls_of (working_env (JsonObject None))"

definition reply_calls :: "json \<Rightarrow> asr_calls" where
  "reply_calls v =
     \<lparr>opened = None, posted = None, status_checked = None, decoded = Inr v, no_get = [110]\<rparr>"

section \<open>Auxiliary facts\<close>

subsection \<open>Blank text and send_message\<close>

lemma all_dropWhile: "(\<forall>x\<in>set (dropWhile P xs). P x) = (\<forall>x\<in>set xs. P x)"
  by (induction xs) auto

lemma strip_empty_iff: "strip t = [] \<longleftrightarrow> (\<forall>c\<in>set t. isspace c)"
  by (simp add: strip_def dropWhile_eq_Nil_conv all_dropWhile)

lemma send_message_blank: "\<forall>c\<in>set (input_value s). isspace c \<Longrightarrow> send_message s = s"
  by (simp add: send_message_def strip_empty_iff)

lemma send_message_task:
  "strip (input_value s) \<noteq> [] \<Longrightarrow>
   send_message s =
     s\<lparr>input_value := [], log_area := log_area s @ [LogYou (strip (input_value s))],
       tasks := tasks s @ [Scheduled (strip (input_value s))]\<rparr>"
  by (simp add: send_message_def add_log_def Let_def)

subsection \<open>The outcomes of transcribe_audio\<close>

lemma voice_input_path_nonempty: "voice_input_path d \<noteq> []"
  by (simp add: voice_input_path_def voice_input_wav_def)

lemma transcribe_audio_open_raises:
  "p \<noteq> [] \<Longrightarrow> open_outcome env = Some e \<Longrightarrow>
   transcribe_audio env (Some p) s = ([], add_log (LogASRError e) s)"
  by (simp add: transcribe_audio_def transcribe_body_def)

lemma transcribe_audio_request_raises:
  "p \<noteq> [] \<Longrightarrow> open_outcome env = None \<Longrightarrow> request_error (response env) = Some e \<Longrightarrow>
   transcribe_audio env (Some p) s = ([], add_log (LogASRError e) (call (HttpPost (local_path p)) s))"
  by (auto simp: transcribe_audio_def transcribe_body_def request_error_def split: http_outcome.splits)

lemma transcribe_audio_object:
  "p \<noteq> [] \<Longrightarrow> open_outcome env = None \<Longrightarrow> response env = JsonObject t \<Longrightarrow>
   transcribe_audio env (Some p) s =
     (case t of None \<Rightarrow> [] | Some x \<Rightarrow> x, call (HttpPost (local_path p)) s)"
  by (auto simp: transcribe_audio_def transcribe_body_def split: option.splits)



subsection \<open>One click on the voice button\<close>

lemma close_stream_disabled [simp]:
  "close_stream env (s\<lparr>button_disabled := b\<rparr>) = close_stream env s"
  by (simp add: close_stream_def)

lemma start_click_ok:
  "\<not> is_recording s \<Longrightarrow> device env = DeviceOk rate \<Longrightarrow>
   on_voice_click env s =
     s\<lparr>recording_data := [], is_recording := True, samplerate := rate, has_stream := True,
       log_area := log_area s @ [LogListening]\<rparr>"
  by (rule ui_state.equality)
    (simp_all add: on_voice_click_def start_recording_body_def add_log_def)

lemma stop_click_capture_error:
  "is_recording s \<Longrightarrow> capture_error env s = Some e \<Longrightarrow>
   on_voice_click env s =
     s\<lparr>button_disabled := False, is_recording := False, log_area := log_area s @ [LogError e]\<rparr>"
  by (rule ui_state.equality)
    (auto simp: on_voice_click_def stop_recording_body_def capture_error_def add_log_def
      split: option.splits if_splits)

lemma stop_click_empty:
  "is_recording s \<Longrightarrow> recording_data s = [] \<Longrightarrow> close_stream env s = None \<Longrightarrow>
   on_voice_click env s = s\<lparr>button_disabled := False, is_recording := False\<rparr>"
  by (rule ui_state.equality) (simp_all add: on_voice_click_def stop_recording_body_def)

lemma stop_click_text:
  "is_recording s \<Longrightarrow> recording_data s \<noteq> [] \<Longrightarrow> capture_error env s = None \<Longrightarrow>
   open_outcome (asr env) = None \<Longrightarrow> response (asr env) = JsonObject (Some t) \<Longrightarrow> t \<noteq> [] \<Longrightarrow>
   on_voice_click env s =
     send_message
       (s\<lparr>button_disabled := False, is_recording := False, input_value := t,
          log_area := log_area s @ [LogTranscribing, LogTranscribed t],
          calls := calls s @ [HttpPost (local_path (voice_input_path (tempdir env)))]\<rparr>)"
  by (rule ui_state.equality)
    (auto simp: on_voice_click_def stop_recording_body_def capture_error_def add_log_def call_def
      transcribe_audio_object voice_input_path_nonempty send_message_def Let_def
      split: option.splits if_splits)

lemma stop_click_no_text:
  "is_recording s \<Longrightarrow> recording_data s \<noteq> [] \<Longrightarrow> capture_error env s = None \<Longrightarrow>
   open_outcome (asr env) = None \<Longrightarrow>
   response (asr env) = JsonObject None \<or> response (asr env) = JsonObject (Some []) \<Longrightarrow>
   on_voice_click env s =
     s\<lparr>button_disabled := False, is_recording := False,
       log_area := log_area s @ [LogTranscribing, LogFailed],
       calls := calls s @ [HttpPost (local_path (voice_input_path (tempdir env)))]\<rparr>"
  by (rule ui_state.equality)
    (auto simp: on_voice_click_def stop_recording_body_def capture_error_def add_log_def call_def
      transcribe_audio_object voice_input_path_nonempty
      split: option.splits if_splits)

lemma stop_click_asr_error:
  "is_recording s \<Longrightarrow> recording_data s \<noteq> [] \<Longrightarrow> capture_error env s = None \<Longrightarrow>
   asr_error (asr env) = Some e \<Longrightarrow>
   on_voice_click env s =
     s\<lparr>button_disabled := False, is_recording := False,
       log_area := log_area s @ [LogTranscribing, LogASRError e, LogFailed],
       calls := (if open_outcome (asr env) = None
                 then calls s @ [HttpPost (local_path (voice_input_path (tempdir env)))]
                 else calls s)\<rparr>"
  by (rule ui_state.equality)
    (auto simp: on_voice_click_def stop_recording_body_def capture_error_def add_log_def call_def
      transcribe_audio_open_raises transcribe_audio_request_raises voice_input_path_nonempty
      asr_error_def split: option.splits if_splits)


subsection \<open>The steps of the coroutine\<close>

lemma run_ops_append: "run_ops (xs @ ys) s = run_ops ys (run_ops xs s)"
  by (induction xs arbitrary: s) simp_all

lemma resume_completed:
  "i < length (tasks s) \<Longrightarrow> tasks s ! i = Completed \<Longrightarrow> run_ops (map (TaskResume i) xs) s = s"
  by (induction xs) simp_all

lemma resume_result:
  "i < length (tasks s) \<Longrightarrow> tasks s ! i = AwaitingStep \<Longrightarrow>
   ui_step (TaskResume i (StepReturns r)) s =
     (if finished r
      then s\<lparr>log_area := log_area s @
                 [LogThinking (thinking r), LogActing (action r), LogFinished (message r)],
             tasks := (tasks s)[i := Completed]\<rparr>
      else s\<lparr>log_area := log_area s @ [LogThinking (thinking r), LogActing (action r)],
             calls := calls s @ [AgentStep None]\<rparr>)"
  by (rule ui_state.equality)
    (simp_all add: run_agent_task_resume_def set_task_def add_log_def call_def
      list_update_same_conv)

lemma resume_raises:
  "i < length (tasks s) \<Longrightarrow> tasks s ! i = AwaitingStep \<Longrightarrow>
   ui_step (TaskResume i (StepRaises e)) s =
     s\<lparr>log_area := log_area s @ [LogError e], tasks := (tasks s)[i := Completed]\<rparr>"
  by (rule ui_state.equality)
    (simp_all add: run_agent_task_resume_def set_task_def add_log_def)

lemma begin_task:
  "i < length (tasks s) \<Longrightarrow> tasks s ! i = Scheduled task \<Longrightarrow>
   ui_step (TaskBegin i reset_outcome) s =
     (case reset_outcome of
        None \<Rightarrow>
          s\<lparr>log_area := log_area s @ [LogStarting task, LogThinkingPlaceholder],
            calls := calls s @ [AgentReset, AgentStep (Some task)],
            tasks := (tasks s)[i := AwaitingStep]\<rparr>
      | Some e \<Rightarrow>
          s\<lparr>log_area := log_area s @ [LogStarting task, LogError e],
            calls := calls s @ [AgentReset],
            tasks := (tasks s)[i := Completed]\<rparr>)"
  by (rule ui_state.equality)
    (simp_all add: run_agent_task_begin_def set_task_def add_log_def call_def
      split: option.splits)

lemma resume_unfinished:
  "i < length (tasks s) \<Longrightarrow> tasks s ! i = AwaitingStep \<Longrightarrow> \<forall>r\<in>set rs. \<not> finished r \<Longrightarrow>
   run_ops (map (TaskResume i \<circ> StepReturns) rs) s =
     s\<lparr>log_area := log_area s @ step_lines rs,
       calls := calls s @ replicate (length rs) (AgentStep None)\<rparr>"
proof (induction rs arbitrary: s)
  case Nil
  then show ?case by (simp add: step_lines_def)
next
  case (Cons r rs)
  define s' where "s' = s\<lparr>log_area := log_area s @ [LogThinking (thinking r), LogActing (action r)],
                             calls := calls s @ [AgentStep None]\<rparr>"
  have step: "ui_step (TaskResume i (StepReturns r)) s = s'"
    unfolding s'_def using Cons.prems by (subst resume_result) simp_all
  have "run_ops (map (TaskResume i \<circ> StepReturns) rs) s' =
        s'\<lparr>log_area := log_area s' @ step_lines rs,
            calls := calls s' @ replicate (length rs) (AgentStep None)\<rparr>"
    by (rule Cons.IH) (use Cons.prems in \<open>simp_all add: s'_def\<close>)
  then have run: "run_ops (map (TaskResume i \<circ> StepReturns) (r # rs)) s =
        s'\<lparr>log_area := log_area s' @ step_lines rs,
            calls := calls s' @ replicate (length rs) (AgentStep None)\<rparr>"
    by (simp only: list.map run_ops.simps step comp_apply)
  have "s'\<lparr>log_area := log_area s' @ step_lines rs,
            calls := calls s' @ replicate (length rs) (AgentStep None)\<rparr> =
        s\<lparr>log_area := log_area s @ step_lines (r # rs),
          calls := calls s @ replicate (length (r # rs)) (AgentStep None)\<rparr>"
    by (simp add: s'_def step_lines_def replicate_app_Cons_same)
  with run show ?case by (rule trans)
qed

lemma run_steps_pending:
  assumes "i < length (tasks s)" "tasks s ! i = AwaitingStep" "\<forall>r\<in>set rs. \<not> finished r"
  shows "run_ops (map (TaskResume i) (map StepReturns rs)) s =
     s\<lparr>log_area := log_area s @ step_lines rs,
       calls := calls s @ replicate (length rs) (AgentStep None)\<rparr>"
  using resume_unfinished [OF assms] by simp

lemma run_steps_finished:
  assumes "i < length (tasks s)" "tasks s ! i = AwaitingStep" "\<forall>r\<in>set pre. \<not> finished r"
    "finished r"
  shows "run_ops (map (TaskResume i) (map StepReturns (pre @ r # post))) s =
     s\<lparr>log_area := log_area s @ step_lines (pre @ [r]) @ [LogFinished (message r)],
       calls := calls s @ replicate (length pre) (AgentStep None),
       tasks := (tasks s)[i := Completed]\<rparr>"
proof -
  define s1 where "s1 = s\<lparr>log_area := log_area s @ step_lines pre,
                           calls := calls s @ replicate (length pre) (AgentStep None)\<rparr>"
  define s2 where "s2 = s1\<lparr>log_area := log_area s1 @
                 [LogThinking (thinking r), LogActing (action r), LogFinished (message r)],
             tasks := (tasks s1)[i := Completed]\<rparr>"
  have a: "run_ops (map (TaskResume i) (map StepReturns pre)) s = s1"
    unfolding s1_def by (rule run_steps_pending [OF assms(1-3)])
  have b: "ui_step (TaskResume i (StepReturns r)) s1 = s2"
    unfolding s2_def using assms by (subst resume_result) (simp_all add: s1_def)
  have c: "run_ops (map (TaskResume i) (map StepReturns post)) s2 = s2"
    by (rule resume_completed) (use assms in \<open>simp_all add: s1_def s2_def\<close>)
  have run: "run_ops (map (TaskResume i) (map StepReturns (pre @ r # post))) s = s2"
    by (simp only: map_append list.map run_ops_append run_ops.simps a b c)
  have "s2 = s\<lparr>log_area := log_area s @ step_lines (pre @ [r]) @ [LogFinished (message r)],
       calls := calls s @ replicate (length pre) (AgentStep None),
       tasks := (tasks s)[i := Completed]\<rparr>"
    by (rule ui_state.equality) (simp_all add: s1_def s2_def step_lines_def)
  with run show ?thesis by (rule trans)
qed

lemma run_steps_raises:
  assumes "i < length (tasks s)" "tasks s ! i = AwaitingStep" "\<forall>r\<in>set pre. \<not> finished r"
  shows "run_ops (map (TaskResume i) (map StepReturns pre @ StepRaises e # post)) s =
     s\<lparr>log_area := log_area s @ step_lines pre @ [LogError e],
       calls := calls s @ replicate (length pre) (AgentStep None),
       tasks := (tasks s)[i := Completed]\<rparr>"
proof -
  define s1 where "s1 = s\<lparr>log_area := log_area s @ step_lines pre,
                           calls := calls s @ replicate (length pre) (AgentStep None)\<rparr>"
  define s2 where "s2 = s1\<lparr>log_area := log_area s1 @ [LogError e],
             tasks := (tasks s1)[i := Completed]\<rparr>"
  have a: "run_ops (map (TaskResume i) (map StepReturns pre)) s = s1"
    unfolding s1_def by (rule run_steps_pending [OF assms(1-3)])
  have b: "ui_step (TaskResume i (StepRaises e)) s1 = s2"
    unfolding s2_def using assms by (subst resume_raises) (simp_all add: s1_def)
  have c: "run_ops (map (TaskResume i) post) s2 = s2"
    by (rule resume_completed) (use assms in \<open>simp_all add: s1_def s2_def\<close>)
  have run: "run_ops (map (TaskResume i) (map StepReturns pre @ StepRaises e # post)) s = s2"
    by (simp only: map_append list.map run_ops_append run_ops.simps a b c)
  have "s2 = s\<lparr>log_area := log_area s @ step_lines pre @ [LogError e],
       calls := calls s @ replicate (length pre) (AgentStep None),
       tasks := (tasks s)[i := Completed]\<rparr>"
    by (rule ui_state.equality) (simp_all add: s1_def s2_def)
  with run show ?thesis by (rule trans)
qed

subsection \<open>Sending, delivering chunks, stopping\<close>

lemma strip_nonempty: "strip t \<noteq> [] \<Longrightarrow> t \<noteq> []"
  by (auto simp: strip_def)

lemma submit_task:
  "strip t \<noteq> [] \<Longrightarrow>
   run_ops [TypeText t, Submit] s =
     s\<lparr>input_value := [], log_area := log_area s @ [LogYou (strip t)],
       tasks := tasks s @ [Scheduled (strip t)]\<rparr>"
  by (rule ui_state.equality) (simp_all add: send_message_task)

lemma deliver_chunks:
  "run_ops (map AudioCallback chunks) s = s\<lparr>recording_data := recording_data s @ chunks\<rparr>"
  by (induction chunks arbitrary: s) simp_all

lemma transcribe_audio_is_recording:
  "transcribe_audio env p s = (t, s') \<Longrightarrow> is_recording s' = is_recording s"
  by (auto simp: transcribe_audio_def transcribe_body_def add_log_def call_def Let_def
      split: option.splits http_outcome.splits if_splits)

lemma stop_click_always_stops: "is_recording s \<Longrightarrow> \<not> is_recording (on_voice_click env s)"
  by (auto simp: on_voice_click_def stop_recording_body_def send_message_def Let_def add_log_def
      split: option.splits prod.splits dest: transcribe_audio_is_recording)

subsection \<open>A scheduled task run to its end\<close>

lemma run_scheduled_pending:
  assumes "i < length (tasks s)" "tasks s ! i = Scheduled task" "\<forall>r\<in>set rs. \<not> finished r"
  shows "run_ops (TaskBegin i None # map (TaskResume i) (map StepReturns rs)) s =
     s\<lparr>log_area := log_area s @ [LogStarting task, LogThinkingPlaceholder] @ step_lines rs,
       calls := calls s @ AgentReset # AgentStep (Some task) # replicate (length rs) (AgentStep None),
       tasks := (tasks s)[i := AwaitingStep]\<rparr>"
proof -
  define s1 where "s1 = s\<lparr>log_area := log_area s @ [LogStarting task, LogThinkingPlaceholder],
            calls := calls s @ [AgentReset, AgentStep (Some task)],
            tasks := (tasks s)[i := AwaitingStep]\<rparr>"
  have a: "ui_step (TaskBegin i None) s = s1"
    unfolding s1_def using assms by (subst begin_task) simp_all
  have b: "run_ops (map (TaskResume i) (map StepReturns rs)) s1 =
     s1\<lparr>log_area := log_area s1 @ step_lines rs,
       calls := calls s1 @ replicate (length rs) (AgentStep None)\<rparr>"
    by (rule run_steps_pending) (use assms in \<open>simp_all add: s1_def\<close>)
  have run: "run_ops (TaskBegin i None # map (TaskResume i) (map StepReturns rs)) s =
     s1\<lparr>log_area := log_area s1 @ step_lines rs,
       calls := calls s1 @ replicate (length rs) (AgentStep None)\<rparr>"
    by (simp only: run_ops.simps a b)
  have "s1\<lparr>log_area := log_area s1 @ step_lines rs,
       calls := calls s1 @ replicate (length rs) (AgentStep None)\<rparr> =
     s\<lparr>log_area := log_area s @ [LogStarting task, LogThinkingPlaceholder] @ step_lines rs,
       calls := calls s @ AgentReset # AgentStep (Some task) # replicate (length rs) (AgentStep None),
       tasks := (tasks s)[i := AwaitingStep]\<rparr>"
    by (rule ui_state.equality) (simp_all add: s1_def)
  with run show ?thesis by (rule trans)
qed

lemma run_scheduled_finished:
  assumes "i < length (tasks s)" "tasks s ! i = Scheduled task" "\<forall>r\<in>set pre. \<not> finished r"
    "finished r"
  shows "run_ops (TaskBegin i None # map (TaskResume i) (map StepReturns (pre @ r # post))) s =
     s\<lparr>log_area := log_area s @ [LogStarting task, LogThinkingPlaceholder] @
                   step_lines (pre @ [r]) @ [LogFinished (message r)],
       calls := calls s @ AgentReset # AgentStep (Some task) # replicate (length pre) (AgentStep None),
       tasks := (tasks s)[i := Completed]\<rparr>"
proof -
  define s1 where "s1 = s\<lparr>log_area := log_area s @ [LogStarting task, LogThinkingPlaceholder],
            calls := calls s @ [AgentReset, AgentStep (Some task)],
            tasks := (tasks s)[i := AwaitingStep]\<rparr>"
  define s2 where "s2 = s1\<lparr>log_area := log_area s1 @ step_lines (pre @ [r]) @ [LogFinished (message r)],
       calls := calls s1 @ replicate (length pre) (AgentStep None),
       tasks := (tasks s1)[i := Completed]\<rparr>"
  have a: "ui_step (TaskBegin i None) s = s1"
    unfolding s1_def using assms by (subst begin_task) simp_all
  have b: "run_ops (map (TaskResume i) (map StepReturns (pre @ r # post))) s1 = s2"
    unfolding s2_def by (rule run_steps_finished) (use assms in \<open>simp_all add: s1_def\<close>)
  have run: "run_ops (TaskBegin i None # map (TaskResume i) (map StepReturns (pre @ r # post))) s = s2"
    by (simp only: run_ops.simps a b)
  have "s2 = s\<lparr>log_area := log_area s @ [LogStarting task, LogThinkingPlaceholder] @
                   step_lines (pre @ [r]) @ [LogFinished (message r)],
       calls := calls s @ AgentReset # AgentStep (Some task) # replicate (length pre) (AgentStep None),
       tasks := (tasks s)[i := Completed]\<rparr>"
    by (rule ui_state.equality) (simp_all add: s1_def s2_def)
  with run show ?thesis by (rule trans)
qed

lemma run_scheduled_raises:
  assumes "i < length (tasks s)" "tasks s ! i = Scheduled task" "\<forall>r\<in>set pre. \<not> finished r"
  shows "run_ops (TaskBegin i None #
                  map (TaskResume i) (map StepReturns pre @ StepRaises e # post)) s =
     s\<lparr>log_area := log_area s @ [LogStarting task, LogThinkingPlaceholder] @
                   step_lines pre @ [LogError e],
       calls := calls s @ AgentReset # AgentStep (Some task) # replicate (length pre) (AgentStep None),
       tasks := (tasks s)[i := Completed]\<rparr>"
proof -
  define s1 where "s1 = s\<lparr>log_area := log_area s @ [LogStarting task, LogThinkingPlaceholder],
            calls := calls s @ [AgentReset, AgentStep (Some task)],
            tasks := (tasks s)[i := AwaitingStep]\<rparr>"
  define s2 where "s2 = s1\<lparr>log_area := log_area s1 @ step_lines pre @ [LogError e],
       calls := calls s1 @ replicate (length pre) (AgentStep None),
       tasks := (tasks s1)[i := Completed]\<rparr>"
  have a: "ui_step (TaskBegin i None) s = s1"
    unfolding s1_def using assms by (subst begin_task) simp_all
  have b: "run_ops (map (TaskResume i) (map StepReturns pre @ StepRaises e # post)) s1 = s2"
    unfolding s2_def by (rule run_steps_raises) (use assms in \<open>simp_all add: s1_def\<close>)
  have run: "run_ops (TaskBegin i None #
                  map (TaskResume i) (map StepReturns pre @ StepRaises e # post)) s = s2"
    by (simp only: run_ops.simps a b)
  have "s2 = s\<lparr>log_area := log_area s @ [LogStarting task, LogThinkingPlaceholder] @
                   step_lines pre @ [LogError e],
       calls := calls s @ AgentReset # AgentStep (Some task) # replicate (length pre) (AgentStep None),
       tasks := (tasks s)[i := Completed]\<rparr>"
    by (rule ui_state.equality) (simp_all add: s1_def s2_def)
  with run show ?thesis by (rule trans)
qed

lemma run_scheduled_reset_raises:
  assumes "i < length (tasks s)" "tasks s ! i = Scheduled task"
  shows "run_ops (TaskBegin i (Some e) # map (TaskResume i) outcomes) s =
     s\<lparr>log_area := log_area s @ [LogStarting task, LogError e],
       calls := calls s @ [AgentReset],
       tasks := (tasks s)[i := Completed]\<rparr>"
proof -
  define s1 where "s1 = s\<lparr>log_area := log_area s @ [LogStarting task, LogError e],
            calls := calls s @ [AgentReset],
            tasks := (tasks s)[i := Completed]\<rparr>"
  have a: "ui_step (TaskBegin i (Some e)) s = s1"
    unfolding s1_def using assms by (subst begin_task) simp_all
  have b: "run_ops (map (TaskResume i) outcomes) s1 = s1"
    by (rule resume_completed) (use assms in \<open>simp_all add: s1_def\<close>)
  show ?thesis
    unfolding s1_def [symmetric] by (simp only: run_ops.simps a b)
qed

lemma typed_task_split:
  "run_ops (typed_task_ops i t reset_outcome outcomes) s =
   run_ops (TaskBegin i reset_outcome # map (TaskResume i) outcomes) (run_ops [TypeText t, Submit] s)"
  by (simp add: typed_task_ops_def)

lemma voice_task_split:
  "run_ops (voice_task_ops i env1 chunks env2 reset_outcome outcomes) s =
   run_ops (TaskBegin i reset_outcome # map (TaskResume i) outcomes)
     (on_voice_click env2 (run_ops (map AudioCallback chunks) (on_voice_click env1 s)))"
  by (simp add: voice_task_ops_def run_ops_append)

lemma voice_submit:
  assumes "\<not> is_recording s" "device env1 = DeviceOk rate" "chunks \<noteq> []"
    "stream_stop env2 = None" "stream_close env2 = None" "wav_write env2 = None"
    "open_outcome (asr env2) = None" "response (asr env2) = JsonObject (Some heard)"
    "strip heard \<noteq> []"
  shows "on_voice_click env2 (run_ops (map AudioCallback chunks) (on_voice_click env1 s)) =
     s\<lparr>recording_data := chunks, is_recording := False, samplerate := rate, has_stream := True,
       button_disabled := False, input_value := [],
       log_area := log_area s @
         [LogListening, LogTranscribing, LogTranscribed heard, LogYou (strip heard)],
       calls := calls s @ [HttpPost (local_path (voice_input_path (tempdir env2)))],
       tasks := tasks s @ [Scheduled (strip heard)]\<rparr>"
proof -
  define s1 where "s1 = s\<lparr>recording_data := chunks, is_recording := True, samplerate := rate,
       has_stream := True, log_area := log_area s @ [LogListening]\<rparr>"
  have a: "run_ops (map AudioCallback chunks) (on_voice_click env1 s) = s1"
    unfolding s1_def using assms(1,2)
    by (intro ui_state.equality) (simp_all add: start_click_ok deliver_chunks)
  have b: "on_voice_click env2 s1 =
     send_message
       (s1\<lparr>button_disabled := False, is_recording := False, input_value := heard,
          log_area := log_area s1 @ [LogTranscribing, LogTranscribed heard],
          calls := calls s1 @ [HttpPost (local_path (voice_input_path (tempdir env2)))]\<rparr>)"
    by (rule stop_click_text)
      (use assms in \<open>simp_all add: s1_def capture_error_def close_stream_def strip_nonempty\<close>)
  show ?thesis
    unfolding a b using assms(9)
    by (intro ui_state.equality) (simp_all add: send_message_task s1_def)
qed

subsection \<open>The functions with all exceptions and replies\<close>

text \<open>
  On environments of the first kind the functions of the last section of definitions are
  the functions defined before them.
\<close>

lemma transcribe_audio_full_restricts:
  "transcribe_audio_full (asr_calls_of env) file_path s =
     (Inr (JString (fst (transcribe_audio env file_path s))), snd (transcribe_audio env file_path s))"
  by (cases file_path; cases "open_outcome env"; cases "response env")
    (auto simp: transcribe_audio_full_def transcribe_body_full_def transcribe_audio_def
      transcribe_body_def asr_calls_of_def get_text_def Let_def split: option.splits)

lemma run_agent_task_begin_full_restricts:
  "run_agent_task_begin_full (map_option Exception reset_outcome) task s =
     (Inr (fst (run_agent_task_begin reset_outcome task s)),
      snd (run_agent_task_begin reset_outcome task s))"
  by (cases reset_outcome)
    (simp_all add: run_agent_task_begin_full_def run_agent_task_begin_def Let_def)

lemma run_agent_task_resume_full_restricts:
  "run_agent_task_resume_full (step_exit_of outcome) s =
     (Inr (fst (run_agent_task_resume outcome s)), snd (run_agent_task_resume outcome s))"
  by (cases outcome)
    (simp_all add: run_agent_task_resume_full_def run_agent_task_resume_def step_exit_of_def
      Let_def)

lemma start_recording_body_full_restricts:
  "start_recording_body_full (click_calls_of env) s =
     (case start_recording_body env s of
        Inl (e, s') \<Rightarrow> Inl (Exception e, s')
      | Inr s' \<Rightarrow> Inr s')"
  by (cases "device env")
    (simp_all add: start_recording_body_full_def start_recording_body_def click_calls_of_def
      Let_def)

lemma close_stream_full_restricts:
  "close_stream_full (click_calls_of env) s = map_option Exception (close_stream env s)"
  by (simp add: close_stream_full_def close_stream_def click_calls_of_def split: option.splits)

lemma stop_recording_body_full_restricts:
  "stop_recording_body_full (click_calls_of env) s =
     (case stop_recording_body env s of
        Inl (e, s') \<Rightarrow> Inl (Exception e, s')
      | Inr s' \<Rightarrow> Inr s')"
proof -
  have t: "tmpdir (click_calls_of env) = tempdir env"
    "transcribing (click_calls_of env) = asr env"
    "awaited (click_calls_of env) = None"
    "written (click_calls_of env) = map_option Exception (wav_write env)"
    by (simp_all add: click_calls_of_def)
  show ?thesis
    unfolding stop_recording_body_full_def stop_recording_body_def close_stream_full_restricts t
    by (auto simp: Let_def split: option.splits prod.splits)
qed

lemma on_voice_click_full_restricts:
  "on_voice_click_full (click_calls_of env) s = Inr (on_voice_click env s)"
  unfolding on_voice_click_full_def on_voice_click_def start_recording_body_full_restricts
    stop_recording_body_full_restricts
  by (simp split: sum.splits prod.splits)

subsection \<open>What transcribe_audio returns\<close>

lemma transcribe_audio_full_no_path:
  "file_path = None \<or> file_path = Some [] \<Longrightarrow>
   transcribe_audio_full env file_path s = (Inr (JString []), s)"
  by (auto simp: transcribe_audio_full_def)

lemma transcribe_body_full_raises:
  "asr_raise env = Some x \<Longrightarrow>
   transcribe_body_full env p s =
     (Inl x, if opened env = None then call (HttpPost (local_path p)) s else s)"
  by (auto simp: asr_raise_def transcribe_body_full_def Let_def
      split: option.splits sum.splits json.splits)

lemma transcribe_body_full_returns:
  "asr_raise env = None \<Longrightarrow> decoded env = Inr v \<Longrightarrow>
   \<exists>members. v = JObject members \<and>
     transcribe_body_full env p s = (Inr (get_text members), call (HttpPost (local_path p)) s)"
  by (auto simp: asr_raise_def transcribe_body_full_def Let_def
      split: option.splits sum.splits json.splits)

lemma transcribe_audio_full_no_exception:
  "fst (transcribe_audio_full env file_path s) \<noteq> Inl (Exception e)"
  by (auto simp: transcribe_audio_full_def split: option.splits prod.splits sum.splits exn.splits)

subsection \<open>One click, with all exceptions\<close>

lemma close_stream_full_disabled [simp]:
  "close_stream_full env (s\<lparr>button_disabled := b\<rparr>) = close_stream_full env s"
  by (simp add: close_stream_full_def)

lemma start_click_full_exception:
  assumes "\<not> is_recording s" "start_raise env = Some (Exception e)"
  shows "\<not> isl (on_voice_click_full env s)"
    and "log_area (projr (on_voice_click_full env s)) = log_area s @ [LogError e]"
    and "calls (projr (on_voice_click_full env s)) = calls s"
    and "tasks (projr (on_voice_click_full env s)) = tasks s"
    and "\<not> is_recording (projr (on_voice_click_full env s))"
    and "button_disabled (projr (on_voice_click_full env s)) = button_disabled s"
  using assms
  by (auto simp: on_voice_click_full_def start_recording_body_full_def start_raise_def add_log_def
      Let_def split: option.splits sum.splits)

lemma start_click_full_base_exception:
  assumes "\<not> is_recording s" "start_raise env = Some (BaseException e)"
  shows "isl (on_voice_click_full env s)"
    and "fst (projl (on_voice_click_full env s)) = e"
    and "log_area (snd (projl (on_voice_click_full env s))) = log_area s"
    and "is_recording (snd (projl (on_voice_click_full env s)))"
  using assms
  by (auto simp: on_voice_click_full_def start_recording_body_full_def start_raise_def add_log_def
      Let_def split: option.splits sum.splits)

lemma stop_click_full_exception:
  assumes "is_recording s" "capture_raise env s = Some (Exception e)"
  shows "\<not> isl (on_voice_click_full env s)"
    and "log_area (projr (on_voice_click_full env s)) = log_area s @ [LogError e]"
    and "calls (projr (on_voice_click_full env s)) = calls s"
    and "tasks (projr (on_voice_click_full env s)) = tasks s"
    and "\<not> is_recording (projr (on_voice_click_full env s))"
    and "\<not> button_disabled (projr (on_voice_click_full env s))"
  using assms
  by (auto simp: on_voice_click_full_def stop_recording_body_full_def capture_raise_def
      add_log_def Let_def split: option.splits if_splits)

lemma stop_click_full_base_exception:
  assumes "is_recording s" "capture_raise env s = Some (BaseException e)"
  shows "isl (on_voice_click_full env s)"
    and "fst (projl (on_voice_click_full env s)) = e"
    and "log_area (snd (projl (on_voice_click_full env s))) = log_area s"
  using assms
  by (auto simp: on_voice_click_full_def stop_recording_body_full_def capture_raise_def
      add_log_def Let_def split: option.splits if_splits)

lemma await_full_exception:
  assumes "is_recording s" "recording_data s \<noteq> []" "capture_raise env s = None"
    "awaited env = Some (Exception e)"
  shows "\<not> isl (on_voice_click_full env s)"
    and "log_area (projr (on_voice_click_full env s)) = log_area s @ [LogTranscribing, LogError e]"
    and "calls (projr (on_voice_click_full env s)) = calls s"
    and "tasks (projr (on_voice_click_full env s)) = tasks s"
    and "\<not> is_recording (projr (on_voice_click_full env s))"
    and "\<not> button_disabled (projr (on_voice_click_full env s))"
  using assms
  by (auto simp: on_voice_click_full_def stop_recording_body_full_def capture_raise_def
      add_log_def Let_def split: option.splits if_splits)

lemma await_full_base_exception:
  assumes "is_recording s" "recording_data s \<noteq> []" "capture_raise env s = None"
    "awaited env = Some (BaseException e)"
  shows "isl (on_voice_click_full env s)"
    and "fst (projl (on_voice_click_full env s)) = e"
    and "log_area (snd (projl (on_voice_click_full env s))) = log_area s @ [LogTranscribing]"
    and "calls (snd (projl (on_voice_click_full env s))) = calls s"
  using assms
  by (auto simp: on_voice_click_full_def stop_recording_body_full_def capture_raise_def
      add_log_def Let_def split: option.splits if_splits)

lemma transcription_full_exception:
  assumes "is_recording s" "recording_data s \<noteq> []" "capture_raise env s = None"
    "awaited env = None" "asr_error (transcribing env) = Some e"
  shows "\<not> isl (on_voice_click_full env s)"
    and "log_area (projr (on_voice_click_full env s)) =
           log_area s @ [LogTranscribing, LogASRError e, LogFailed]"
    and "tasks (projr (on_voice_click_full env s)) = tasks s"
    and "\<not> is_recording (projr (on_voice_click_full env s))"
    and "\<not> button_disabled (projr (on_voice_click_full env s))"
  using assms
  by (auto simp: on_voice_click_full_def stop_recording_body_full_def capture_raise_def
      add_log_def call_def Let_def asr_error_def transcribe_audio_open_raises
      transcribe_audio_request_raises voice_input_path_nonempty
      split: option.splits if_splits)

subsection \<open>The example states\<close>

lemma recording_state_eq:
  "recording_state =
     \<lparr>is_recording = True, samplerate = 48000, has_stream = True, recording_data = [[0, 1]],
      input_value = [], button_disabled = False, log_area = [LogListening], calls = [],
      tasks = []\<rparr>"
  by (simp add: recording_state_def working_env_def init_state_def on_voice_click_def
      start_recording_body_def add_log_def)

lemma recording_state_ready:
  "is_recording recording_state \<and> recording_data recording_state \<noteq> [] \<and>
   capture_error (working_env r) recording_state = None \<and>
   open_outcome (asr (working_env r)) = None \<and> response (asr (working_env r)) = r"
  by (simp add: recording_state_eq working_env_def capture_error_def close_stream_def)

lemma init_state_idle: "idle init_state"
  by (simp add: idle_def init_state_def)

lemma running_state_eq:
  "running_state =
     \<lparr>is_recording = False, samplerate = 44100, has_stream = False, recording_data = [],
      input_value = [], button_disabled = False,
      log_area = [LogYou [103, 111], LogStarting [103, 111], LogThinkingPlaceholder],
      calls = [AgentReset, AgentStep (Some [103, 111])], tasks = [AwaitingStep]\<rparr>"
  by (simp add: running_state_def init_state_def send_message_def Let_def strip_def isspace_def
      run_agent_task_begin_def set_task_def add_log_def call_def)

lemma working_calls_eq:
  "working_calls =
     \<lparr>queried = Inr 48000, constructed = None, started = None, stopped = None, closed = None,
      written = None, tmpdir = [47, 116, 109, 112],
      transcribing = \<lparr>open_outcome = None, response = JsonObject None\<rparr>, awaited = None\<rparr>"
  by (simp add: working_calls_def click_calls_of_def working_env_def)

section \<open>The lines of a successful task\<close>

text \<open>
  C1, as stated: the lines of a successful task are exactly \<open>Started\<close>, the pairs
  \<open>Thinking\<close>, \<open>Acting\<close> and \<open>Finished\<close> (after \<open>Listening\<close> and
  \<open>Transcribing\<close> for a spoken task), with nothing in between. They are not: a typed
  task that finishes at its first step also logs the echo of the text before \<open>Started\<close>
  and the placeholder \<^verbatim>\<open>"Thinking..."\<close> after it.
\<close>

theorem successful_task_lines_counterexample:
  "log_area (run_ops (typed_task_ops 0 [103, 111] None [StepReturns last_step]) init_state) \<noteq>
   spec_success_events False [103, 111] [] last_step"
  by (simp add: typed_task_ops_def init_state_def send_message_def strip_def isspace_def
      run_agent_task_begin_def run_agent_task_resume_def set_task_def add_log_def call_def
      last_step_def spec_success_events_def step_lines_def Let_def)

text \<open>
  C1, amended. For every successful task the lines logged are exactly: for a spoken task
  \<open>Listening\<close>, \<open>Transcribing\<close> and the line with the transcribed text; then the echo
  of the trimmed text, \<open>Started\<close> with the trimmed text, the placeholder
  \<^verbatim>\<open>"Thinking..."\<close>, one or more pairs \<open>Thinking\<close>, \<open>Acting\<close>, and \<open>Finished\<close>
  with the message of the last result. Without the three kinds of line the specification
  has no event for, this is the sequence of the claim.
\<close>

theorem successful_task_lines:
  "(strip t \<noteq> [] \<and> (\<forall>x\<in>set rs. \<not> finished x) \<and> finished r \<longrightarrow>
      log_area (run_ops (typed_task_ops (length (tasks s)) t None
                           (map StepReturns (rs @ [r]))) s) =
        log_area s @ code_success_events None (strip t) rs r) \<and>
   (\<not> is_recording s \<and> device env1 = DeviceOk rate \<and> chunks \<noteq> [] \<and>
    stream_stop env2 = None \<and> stream_close env2 = None \<and> wav_write env2 = None \<and>
    open_outcome (asr env2) = None \<and> response (asr env2) = JsonObject (Some heard) \<and>
    strip heard \<noteq> [] \<and> (\<forall>x\<in>set rs. \<not> finished x) \<and> finished r \<longrightarrow>
      log_area (run_ops (voice_task_ops (length (tasks s)) env1 chunks env2 None
                           (map StepReturns (rs @ [r]))) s) =
        log_area s @ code_success_events (Some heard) (strip heard) rs r) \<and>
   filter (\<lambda>l. \<not> echo_line l) (code_success_events said task rs r) =
     spec_success_events (said \<noteq> None) task rs r"
proof (intro conjI impI)
  assume a: "strip t \<noteq> [] \<and> (\<forall>x\<in>set rs. \<not> finished x) \<and> finished r"
  define s1 where "s1 = run_ops [TypeText t, Submit] s"
  have s1: "s1 = s\<lparr>input_value := [], log_area := log_area s @ [LogYou (strip t)],
       tasks := tasks s @ [Scheduled (strip t)]\<rparr>"
    unfolding s1_def by (rule submit_task) (use a in simp)
  have run: "run_ops (typed_task_ops (length (tasks s)) t None (map StepReturns (rs @ r # []))) s =
     s1\<lparr>log_area := log_area s1 @ [LogStarting (strip t), LogThinkingPlaceholder] @
                   step_lines (rs @ [r]) @ [LogFinished (message r)],
       calls := calls s1 @ AgentReset # AgentStep (Some (strip t)) #
                  replicate (length rs) (AgentStep None),
       tasks := (tasks s1)[length (tasks s) := Completed]\<rparr>"
    unfolding typed_task_split s1_def [symmetric]
    by (rule run_scheduled_finished) (use a in \<open>simp_all add: s1\<close>)
  show "log_area (run_ops (typed_task_ops (length (tasks s)) t None
                           (map StepReturns (rs @ [r]))) s) =
        log_area s @ code_success_events None (strip t) rs r"
    unfolding run by (simp add: s1 code_success_events_def)
next
  assume a: "\<not> is_recording s \<and> device env1 = DeviceOk rate \<and> chunks \<noteq> [] \<and>
    stream_stop env2 = None \<and> stream_close env2 = None \<and> wav_write env2 = None \<and>
    open_outcome (asr env2) = None \<and> response (asr env2) = JsonObject (Some heard) \<and>
    strip heard \<noteq> [] \<and> (\<forall>x\<in>set rs. \<not> finished x) \<and> finished r"
  define s1 where
    "s1 = on_voice_click env2 (run_ops (map AudioCallback chunks) (on_voice_click env1 s))"
  have s1: "s1 =
     s\<lparr>recording_data := chunks, is_recording := False, samplerate := rate, has_stream := True,
       button_disabled := False, input_value := [],
       log_area := log_area s @
         [LogListening, LogTranscribing, LogTranscribed heard, LogYou (strip heard)],
       calls := calls s @ [HttpPost (local_path (voice_input_path (tempdir env2)))],
       tasks := tasks s @ [Scheduled (strip heard)]\<rparr>"
    unfolding s1_def by (rule voice_submit) (use a in simp_all)
  have run: "run_ops (voice_task_ops (length (tasks s)) env1 chunks env2 None
                        (map StepReturns (rs @ r # []))) s =
     s1\<lparr>log_area := log_area s1 @ [LogStarting (strip heard), LogThinkingPlaceholder] @
                   step_lines (rs @ [r]) @ [LogFinished (message r)],
       calls := calls s1 @ AgentReset # AgentStep (Some (strip heard)) #
                  replicate (length rs) (AgentStep None),
       tasks := (tasks s1)[length (tasks s) := Completed]\<rparr>"
    unfolding voice_task_split s1_def [symmetric]
    by (rule run_scheduled_finished) (use a in \<open>simp_all add: s1\<close>)
  show "log_area (run_ops (voice_task_ops (length (tasks s)) env1 chunks env2 None
                           (map StepReturns (rs @ [r]))) s) =
        log_area s @ code_success_events (Some heard) (strip heard) rs r"
    unfolding run by (simp add: s1 code_success_events_def)
next
  have "filter (\<lambda>l. \<not> echo_line l) (step_lines xs) = step_lines xs" for xs
    by (induction xs) (simp_all add: step_lines_def)
  then show "filter (\<lambda>l. \<not> echo_line l) (code_success_events said task rs r) =
     spec_success_events (said \<noteq> None) task rs r"
    by (cases said) (simp_all add: code_success_events_def spec_success_events_def)
qed

theorem successful_task_lines_witness:
  "strip [32, 103, 111] = [103, 111] \<and> \<not> finished first_step \<and> finished last_step \<and>
   log_area (run_ops (typed_task_ops 0 [32, 103, 111] None
                        [StepReturns first_step, StepReturns last_step]) init_state) =
     [LogYou [103, 111], LogStarting [103, 111], LogThinkingPlaceholder,
      LogThinking [112], LogActing [116], LogThinking [118], LogActing [110],
      LogFinished (Some [100])] \<and>
   \<not> is_recording init_state \<and> device (working_env (JsonObject None)) = DeviceOk 48000 \<and>
   [[0, 1]] \<noteq> ([] :: chunk list) \<and>
   stream_stop (working_env (JsonObject (Some [32, 103, 111]))) = None \<and>
   stream_close (working_env (JsonObject (Some [32, 103, 111]))) = None \<and>
   wav_write (working_env (JsonObject (Some [32, 103, 111]))) = None \<and>
   open_outcome (asr (working_env (JsonObject (Some [32, 103, 111])))) = None \<and>
   response (asr (working_env (JsonObject (Some [32, 103, 111])))) =
     JsonObject (Some [32, 103, 111]) \<and>
   log_area (run_ops (voice_task_ops 0 (working_env (JsonObject None)) [[0, 1]]
                        (working_env (JsonObject (Some [32, 103, 111]))) None
                        [StepReturns first_step, StepReturns last_step]) init_state) =
     [LogListening, LogTranscribing, LogTranscribed [32, 103, 111],
      LogYou [103, 111], LogStarting [103, 111], LogThinkingPlaceholder,
      LogThinking [112], LogActing [116], LogThinking [118], LogActing [110],
      LogFinished (Some [100])] \<and>
   filter (\<lambda>l. \<not> echo_line l)
     (code_success_events (Some [32, 103, 111]) [103, 111] [first_step] last_step) =
     [LogListening, LogTranscribing, LogStarting [103, 111],
      LogThinking [112], LogActing [116], LogThinking [118], LogActing [110],
      LogFinished (Some [100])]"
proof -
  have s: "strip [32, 103, 111] = [103, 111]"
    by (simp add: strip_def isspace_def)
  have f: "\<not> finished first_step \<and> finished last_step"
    by (simp add: first_step_def last_step_def)
  have i: "length (tasks init_state) = 0" "log_area init_state = []"
    by (simp_all add: init_state_def)
  have n: "\<not> is_recording init_state"
    by (simp add: init_state_def)
  have e: "device (working_env (JsonObject None)) = DeviceOk 48000"
    "stream_stop (working_env (JsonObject (Some [32, 103, 111]))) = None"
    "stream_close (working_env (JsonObject (Some [32, 103, 111]))) = None"
    "wav_write (working_env (JsonObject (Some [32, 103, 111]))) = None"
    "open_outcome (asr (working_env (JsonObject (Some [32, 103, 111])))) = None"
    "response (asr (working_env (JsonObject (Some [32, 103, 111])))) =
       JsonObject (Some [32, 103, 111])"
    by (simp_all add: working_env_def)
  from s f e n successful_task_lines
    [of "[32, 103, 111]" "[first_step]" last_step init_state "working_env (JsonObject None)"
      48000 "[[0, 1]]" "working_env (JsonObject (Some [32, 103, 111]))" "[32, 103, 111]"
      "Some [32, 103, 111]" "[103, 111]"]
  show ?thesis
    unfolding i
    by (simp add: code_success_events_def spec_success_events_def step_lines_def)
      (simp add: first_step_def last_step_def)
qed

section \<open>The transition table\<close>

text \<open>
  C2, as stated: a \<open>SubmitTask\<close> or \<open>StartRecording\<close> that arrives while the state is
  not \<open>Idle\<close> is rejected, and no line of a task is logged before the last line of the
  task before it. Neither holds. While a first task awaits its step, the state is
  \<open>Running\<close> and the table allows neither operation; yet a second text is accepted and
  scheduled, its lines \<open>You\<close>, \<open>Started\<close> and the placeholder come before the
  \<open>Finished\<close> of the first task, and a click on the voice button starts a recording.
\<close>

theorem transition_table_counterexample:
  "orch_state_of running_state = Running \<and>
   \<not> spec_valid_from (SubmitTask [104, 105]) Running \<and>
   tasks (run_ops [TypeText [104, 105], Submit] running_state) =
     [AwaitingStep, Scheduled [104, 105]] \<and>
   log_area (run_ops [TypeText [104, 105], Submit, TaskBegin 1 None,
                      TaskResume 0 (StepReturns last_step)] running_state) =
     [LogYou [103, 111], LogStarting [103, 111], LogThinkingPlaceholder,
      LogYou [104, 105], LogStarting [104, 105], LogThinkingPlaceholder,
      LogThinking [118], LogActing [110], LogFinished (Some [100])] \<and>
   \<not> spec_valid_from StartRecording Running \<and>
   is_recording (run_ops [VoiceClick (working_env (JsonObject None))] running_state) \<and>
   log_area (run_ops [VoiceClick (working_env (JsonObject None))] running_state) =
     [LogYou [103, 111], LogStarting [103, 111], LogThinkingPlaceholder, LogListening]"
  by (simp add: running_state_eq orch_state_of_def send_message_def Let_def strip_def
      isspace_def run_agent_task_begin_def run_agent_task_resume_def set_task_def add_log_def
      call_def last_step_def working_env_def on_voice_click_def start_recording_body_def)

text \<open>
  C2, amended. The handlers consult no state but the flag \<^verbatim>\<open>is_recording\<close>, and no
  operation is rejected on account of the state. In every state, sending a text that is
  not blank echoes the trimmed text, clears the input field and schedules a new task at
  once, whether or not a recording or another task is in progress (so the lines of two
  tasks can interleave). In every state in which \<^verbatim>\<open>is_recording\<close> is unset, a click on
  the voice button starts a recording when the device opens, also while a task runs. In
  every state in which it is set, a click ends the recording.
\<close>

theorem no_transition_guard:
  "(strip t \<noteq> [] \<longrightarrow>
      run_ops [TypeText t, Submit] s =
        s\<lparr>input_value := [], log_area := log_area s @ [LogYou (strip t)],
          tasks := tasks s @ [Scheduled (strip t)]\<rparr>) \<and>
   (\<not> is_recording s \<and> device env = DeviceOk rate \<longrightarrow>
      is_recording (on_voice_click env s) \<and>
      log_area (on_voice_click env s) = log_area s @ [LogListening] \<and>
      tasks (on_voice_click env s) = tasks s) \<and>
   (is_recording s1 \<longrightarrow> \<not> is_recording (on_voice_click env s1))"
proof (intro conjI impI)
  assume "strip t \<noteq> []"
  then show "run_ops [TypeText t, Submit] s =
        s\<lparr>input_value := [], log_area := log_area s @ [LogYou (strip t)],
          tasks := tasks s @ [Scheduled (strip t)]\<rparr>"
    by (rule submit_task)
next
  assume a: "\<not> is_recording s \<and> device env = DeviceOk rate"
  then have c: "on_voice_click env s =
     s\<lparr>recording_data := [], is_recording := True, samplerate := rate, has_stream := True,
       log_area := log_area s @ [LogListening]\<rparr>"
    by (simp add: start_click_ok)
  show "is_recording (on_voice_click env s)"
    and "log_area (on_voice_click env s) = log_area s @ [LogListening]"
    and "tasks (on_voice_click env s) = tasks s"
    unfolding c by simp_all
next
  assume "is_recording s1"
  then show "\<not> is_recording (on_voice_click env s1)"
    by (rule stop_click_always_stops)
qed

theorem no_transition_guard_witness:
  "orch_state_of running_state = Running \<and>
   strip [104, 105] = [104, 105] \<and>
   run_ops [TypeText [104, 105], Submit] running_state =
     running_state\<lparr>input_value := [],
       log_area := log_area running_state @ [LogYou [104, 105]],
       tasks := tasks running_state @ [Scheduled [104, 105]]\<rparr> \<and>
   \<not> is_recording running_state \<and>
   device (working_env (JsonObject None)) = DeviceOk 48000 \<and>
   is_recording (on_voice_click (working_env (JsonObject None)) running_state) \<and>
   log_area (on_voice_click (working_env (JsonObject None)) running_state) =
     log_area running_state @ [LogListening] \<and>
   tasks (on_voice_click (working_env (JsonObject None)) running_state) = [AwaitingStep] \<and>
   is_recording recording_state \<and>
   \<not> is_recording (on_voice_click (working_env (JsonObject None)) recording_state)"
proof -
  have s: "strip [104, 105] = [104, 105]"
    by (simp add: strip_def isspace_def)
  have o: "orch_state_of running_state = Running" "\<not> is_recording running_state"
    "tasks running_state = [AwaitingStep]"
    by (simp_all add: running_state_eq orch_state_of_def)
  have d: "device (working_env (JsonObject None)) = DeviceOk 48000"
    by (simp add: working_env_def)
  have r: "is_recording recording_state"
    by (simp add: recording_state_eq)
  from s o d r no_transition_guard
    [of "[104, 105]" running_state "working_env (JsonObject None)" 48000 recording_state]
  show ?thesis by simp
qed

section \<open>Errors of the stages\<close>

text \<open>
  C3, as stated: every error raised inside a stage is caught at the boundary of that stage
  and ends as a failure line, the orchestrator never exits abnormally, and after any
  failure it is idle again. This fails for an exception outside \<^verbatim>\<open>Exception\<close>, which
  no handler catches. When the step call a task awaits raises one, the coroutine ends and
  logs nothing. When \<^verbatim>\<open>sd.query_devices\<close> raises one in the idle state, the exception
  leaves the click, no line is logged, and \<^verbatim>\<open>is_recording\<close> stays set.
\<close>

theorem every_error_caught_counterexample:
  "run_agent_task_resume_full (Inl (BaseException [99])) running_state =
     (Inl [99], running_state) \<and>
   idle init_state \<and>
   isl (on_voice_click_full (working_calls\<lparr>queried := Inl (BaseException [99])\<rparr>) init_state) \<and>
   log_area (snd (projl (on_voice_click_full
                           (working_calls\<lparr>queried := Inl (BaseException [99])\<rparr>) init_state))) =
     [] \<and>
   is_recording (snd (projl (on_voice_click_full
                               (working_calls\<lparr>queried := Inl (BaseException [99])\<rparr>) init_state)))"
  by (simp add: run_agent_task_resume_full_def on_voice_click_full_def
      start_recording_body_full_def working_calls_def click_calls_of_def working_env_def
      init_state_def idle_def)

text \<open>
  C3, amended. Every \<^verbatim>\<open>Exception\<close> raised inside a stage is caught in the handler
  where it occurs and ends as a failure line, the last line of that task: \<open>Error\<close> with
  the exception's message when the device is opened, when the stream is closed or the
  recording written, at the \<^verbatim>\<open>await\<close> of the transcription, and for
  \<^verbatim>\<open>agent.reset\<close> and \<^verbatim>\<open>agent.step\<close>; \<open>ASR Error\<close> followed by \<open>Failed\<close> for
  one raised inside the transcription. The handler then returns, the recording flag is
  reset, the voice button is enabled and the coroutine has ended, so that nothing is in
  progress when nothing else was, and the next task can be started. An exception outside
  \<^verbatim>\<open>Exception\<close> is caught nowhere: it leaves the handler, or ends the coroutine, with no
  failure line, in the state reached when it was raised; raised while the device is
  opened it leaves \<^verbatim>\<open>is_recording\<close> set.
\<close>

theorem exceptions_caught_at_stage_boundary:
  "(idle s \<and> start_raise env = Some (Exception e) \<longrightarrow>
      \<not> isl (on_voice_click_full env s) \<and>
      log_area (projr (on_voice_click_full env s)) = log_area s @ [LogError e] \<and>
      calls (projr (on_voice_click_full env s)) = calls s \<and>
      tasks (projr (on_voice_click_full env s)) = tasks s \<and>
      idle (projr (on_voice_click_full env s))) \<and>
   (\<not> is_recording s \<and> start_raise env0 = Some (BaseException e0) \<longrightarrow>
      isl (on_voice_click_full env0 s) \<and>
      fst (projl (on_voice_click_full env0 s)) = e0 \<and>
      log_area (snd (projl (on_voice_click_full env0 s))) = log_area s \<and>
      is_recording (snd (projl (on_voice_click_full env0 s)))) \<and>
   (is_recording s1 \<and> list_all (\<lambda>t. t = Completed) (tasks s1) \<and>
    capture_raise env1 s1 = Some (Exception e1) \<longrightarrow>
      \<not> isl (on_voice_click_full env1 s1) \<and>
      log_area (projr (on_voice_click_full env1 s1)) = log_area s1 @ [LogError e1] \<and>
      calls (projr (on_voice_click_full env1 s1)) = calls s1 \<and>
      idle (projr (on_voice_click_full env1 s1))) \<and>
   (is_recording s1 \<and> capture_raise env2 s1 = Some (BaseException e2) \<longrightarrow>
      isl (on_voice_click_full env2 s1) \<and>
      fst (projl (on_voice_click_full env2 s1)) = e2 \<and>
      log_area (snd (projl (on_voice_click_full env2 s1))) = log_area s1) \<and>
   (is_recording s1 \<and> list_all (\<lambda>t. t = Completed) (tasks s1) \<and> recording_data s1 \<noteq> [] \<and>
    capture_raise env3 s1 = None \<and> awaited env3 = Some (Exception e3) \<longrightarrow>
      \<not> isl (on_voice_click_full env3 s1) \<and>
      log_area (projr (on_voice_click_full env3 s1)) =
        log_area s1 @ [LogTranscribing, LogError e3] \<and>
      idle (projr (on_voice_click_full env3 s1))) \<and>
   (is_recording s1 \<and> recording_data s1 \<noteq> [] \<and>
    capture_raise env4 s1 = None \<and> awaited env4 = Some (BaseException e4) \<longrightarrow>
      isl (on_voice_click_full env4 s1) \<and>
      fst (projl (on_voice_click_full env4 s1)) = e4 \<and>
      log_area (snd (projl (on_voice_click_full env4 s1))) = log_area s1 @ [LogTranscribing]) \<and>
   (is_recording s1 \<and> list_all (\<lambda>t. t = Completed) (tasks s1) \<and> recording_data s1 \<noteq> [] \<and>
    capture_raise env5 s1 = None \<and> awaited env5 = None \<and>
    asr_error (transcribing env5) = Some e5 \<longrightarrow>
      \<not> isl (on_voice_click_full env5 s1) \<and>
      log_area (projr (on_voice_click_full env5 s1)) =
        log_area s1 @ [LogTranscribing, LogASRError e5, LogFailed] \<and>
      tasks (projr (on_voice_click_full env5 s1)) = tasks s1 \<and>
      idle (projr (on_voice_click_full env5 s1))) \<and>
   run_agent_task_begin_full (Some (Exception e6)) task s2 =
     (Inr Completed,
      add_log (LogError e6) (call AgentReset (add_log (LogStarting task) s2))) \<and>
   run_agent_task_begin_full (Some (BaseException e6)) task s2 =
     (Inl e6, call AgentReset (add_log (LogStarting task) s2)) \<and>
   run_agent_task_resume_full (Inl (Exception e6)) s2 = (Inr Completed, add_log (LogError e6) s2) \<and>
   run_agent_task_resume_full (Inl (BaseException e6)) s2 = (Inl e6, s2) \<and>
   (idle s \<and> strip t \<noteq> [] \<longrightarrow>
      log_area (run_ops (typed_task_ops (length (tasks s)) t (Some e7) outcomes) s) =
        log_area s @ [LogYou (strip t), LogStarting (strip t), LogError e7] \<and>
      calls (run_ops (typed_task_ops (length (tasks s)) t (Some e7) outcomes) s) =
        calls s @ [AgentReset] \<and>
      idle (run_ops (typed_task_ops (length (tasks s)) t (Some e7) outcomes) s)) \<and>
   (idle s \<and> strip t \<noteq> [] \<and> (\<forall>x\<in>set pre. \<not> finished x) \<longrightarrow>
      log_area (run_ops (typed_task_ops (length (tasks s)) t None
                           (map StepReturns pre @ StepRaises e8 # post)) s) =
        log_area s @ [LogYou (strip t), LogStarting (strip t), LogThinkingPlaceholder] @
        step_lines pre @ [LogError e8] \<and>
      idle (run_ops (typed_task_ops (length (tasks s)) t None
                       (map StepReturns pre @ StepRaises e8 # post)) s))"
proof (intro conjI impI)
  assume a: "idle s \<and> start_raise env = Some (Exception e)"
  then have n: "\<not> is_recording s" by (simp add: idle_def)
  note r = start_click_full_exception [OF n, of env e]
  show "\<not> isl (on_voice_click_full env s)"
    and "log_area (projr (on_voice_click_full env s)) = log_area s @ [LogError e]"
    and "calls (projr (on_voice_click_full env s)) = calls s"
    and "tasks (projr (on_voice_click_full env s)) = tasks s"
    and "idle (projr (on_voice_click_full env s))"
    using a r by (simp_all add: idle_def)
next
  assume a: "\<not> is_recording s \<and> start_raise env0 = Some (BaseException e0)"
  then show "isl (on_voice_click_full env0 s)"
    and "fst (projl (on_voice_click_full env0 s)) = e0"
    and "log_area (snd (projl (on_voice_click_full env0 s))) = log_area s"
    and "is_recording (snd (projl (on_voice_click_full env0 s)))"
    by (simp_all add: start_click_full_base_exception)
next
  assume a: "is_recording s1 \<and> list_all (\<lambda>t. t = Completed) (tasks s1) \<and>
    capture_raise env1 s1 = Some (Exception e1)"
  then have r: "is_recording s1" "capture_raise env1 s1 = Some (Exception e1)" by simp_all
  note c = stop_click_full_exception [OF r]
  show "\<not> isl (on_voice_click_full env1 s1)"
    and "log_area (projr (on_voice_click_full env1 s1)) = log_area s1 @ [LogError e1]"
    and "calls (projr (on_voice_click_full env1 s1)) = calls s1"
    and "idle (projr (on_voice_click_full env1 s1))"
    using a c by (simp_all add: idle_def)
next
  assume a: "is_recording s1 \<and> capture_raise env2 s1 = Some (BaseException e2)"
  then show "isl (on_voice_click_full env2 s1)"
    and "fst (projl (on_voice_click_full env2 s1)) = e2"
    and "log_area (snd (projl (on_voice_click_full env2 s1))) = log_area s1"
    by (simp_all add: stop_click_full_base_exception)
next
  assume a: "is_recording s1 \<and> list_all (\<lambda>t. t = Completed) (tasks s1) \<and>
    recording_data s1 \<noteq> [] \<and> capture_raise env3 s1 = None \<and> awaited env3 = Some (Exception e3)"
  then have r: "is_recording s1" "recording_data s1 \<noteq> []" "capture_raise env3 s1 = None"
    "awaited env3 = Some (Exception e3)" by simp_all
  note c = await_full_exception [OF r]
  show "\<not> isl (on_voice_click_full env3 s1)"
    and "log_area (projr (on_voice_click_full env3 s1)) =
        log_area s1 @ [LogTranscribing, LogError e3]"
    and "idle (projr (on_voice_click_full env3 s1))"
    using a c by (simp_all add: idle_def)
next
  assume a: "is_recording s1 \<and> recording_data s1 \<noteq> [] \<and>
    capture_raise env4 s1 = None \<and> awaited env4 = Some (BaseException e4)"
  then show "isl (on_voice_click_full env4 s1)"
    and "fst (projl (on_voice_click_full env4 s1)) = e4"
    and "log_area (snd (projl (on_voice_click_full env4 s1))) = log_area s1 @ [LogTranscribing]"
    by (simp_all add: await_full_base_exception)
next
  assume a: "is_recording s1 \<and> list_all (\<lambda>t. t = Completed) (tasks s1) \<and>
    recording_data s1 \<noteq> [] \<and> capture_raise env5 s1 = None \<and> awaited env5 = None \<and>
    asr_error (transcribing env5) = Some e5"
  then have r: "is_recording s1" "recording_data s1 \<noteq> []" "capture_raise env5 s1 = None"
    "awaited env5 = None" "asr_error (transcribing env5) = Some e5" by simp_all
  note c = transcription_full_exception [OF r]
  show "\<not> isl (on_voice_click_full env5 s1)"
    and "log_area (projr (on_voice_click_full env5 s1)) =
        log_area s1 @ [LogTranscribing, LogASRError e5, LogFailed]"
    and "tasks (projr (on_voice_click_full env5 s1)) = tasks s1"
    and "idle (projr (on_voice_click_full env5 s1))"
    using a c by (simp_all add: idle_def)
next
  show "run_agent_task_begin_full (Some (Exception e6)) task s2 =
     (Inr Completed,
      add_log (LogError e6) (call AgentReset (add_log (LogStarting task) s2)))"
    and "run_agent_task_begin_full (Some (BaseException e6)) task s2 =
     (Inl e6, call AgentReset (add_log (LogStarting task) s2))"
    by (simp_all add: run_agent_task_begin_full_def)
next
  show "run_agent_task_resume_full (Inl (Exception e6)) s2 =
      (Inr Completed, add_log (LogError e6) s2)"
    and "run_agent_task_resume_full (Inl (BaseException e6)) s2 = (Inl e6, s2)"
    by (simp_all add: run_agent_task_resume_full_def)
next
  assume a: "idle s \<and> strip t \<noteq> []"
  define sa where "sa = run_ops [TypeText t, Submit] s"
  have sa: "sa = s\<lparr>input_value := [], log_area := log_area s @ [LogYou (strip t)],
       tasks := tasks s @ [Scheduled (strip t)]\<rparr>"
    unfolding sa_def by (rule submit_task) (use a in simp)
  have run: "run_ops (typed_task_ops (length (tasks s)) t (Some e7) outcomes) s =
     sa\<lparr>log_area := log_area sa @ [LogStarting (strip t), LogError e7],
       calls := calls sa @ [AgentReset],
       tasks := (tasks sa)[length (tasks s) := Completed]\<rparr>"
    unfolding typed_task_split sa_def [symmetric]
    by (rule run_scheduled_reset_raises) (simp_all add: sa)
  show "log_area (run_ops (typed_task_ops (length (tasks s)) t (Some e7) outcomes) s) =
        log_area s @ [LogYou (strip t), LogStarting (strip t), LogError e7]"
    and "calls (run_ops (typed_task_ops (length (tasks s)) t (Some e7) outcomes) s) =
        calls s @ [AgentReset]"
    and "idle (run_ops (typed_task_ops (length (tasks s)) t (Some e7) outcomes) s)"
    unfolding run using a by (simp_all add: sa idle_def)
next
  assume a: "idle s \<and> strip t \<noteq> [] \<and> (\<forall>x\<in>set pre. \<not> finished x)"
  define sa where "sa = run_ops [TypeText t, Submit] s"
  have sa: "sa = s\<lparr>input_value := [], log_area := log_area s @ [LogYou (strip t)],
       tasks := tasks s @ [Scheduled (strip t)]\<rparr>"
    unfolding sa_def by (rule submit_task) (use a in simp)
  have run: "run_ops (typed_task_ops (length (tasks s)) t None
                        (map StepReturns pre @ StepRaises e8 # post)) s =
     sa\<lparr>log_area := log_area sa @ [LogStarting (strip t), LogThinkingPlaceholder] @
                   step_lines pre @ [LogError e8],
       calls := calls sa @ AgentReset # AgentStep (Some (strip t)) #
                  replicate (length pre) (AgentStep None),
       tasks := (tasks sa)[length (tasks s) := Completed]\<rparr>"
    unfolding typed_task_split sa_def [symmetric]
    by (rule run_scheduled_raises) (use a in \<open>simp_all add: sa\<close>)
  show "log_area (run_ops (typed_task_ops (length (tasks s)) t None
                           (map StepReturns pre @ StepRaises e8 # post)) s) =
        log_area s @ [LogYou (strip t), LogStarting (strip t), LogThinkingPlaceholder] @
        step_lines pre @ [LogError e8]"
    and "idle (run_ops (typed_task_ops (length (tasks s)) t None
                       (map StepReturns pre @ StepRaises e8 # post)) s)"
    unfolding run using a by (simp_all add: sa idle_def)
qed

theorem exceptions_caught_at_stage_boundary_witness:
  "idle init_state \<and>
   start_raise (working_calls\<lparr>queried := Inl (Exception [110])\<rparr>) = Some (Exception [110]) \<and>
   \<not> isl (on_voice_click_full (working_calls\<lparr>queried := Inl (Exception [110])\<rparr>) init_state) \<and>
   log_area (projr (on_voice_click_full (working_calls\<lparr>queried := Inl (Exception [110])\<rparr>)
                      init_state)) = [LogError [110]] \<and>
   idle (projr (on_voice_click_full (working_calls\<lparr>queried := Inl (Exception [110])\<rparr>)
                  init_state)) \<and>
   \<not> is_recording init_state \<and>
   start_raise (working_calls\<lparr>started := Some (BaseException [99])\<rparr>) =
     Some (BaseException [99]) \<and>
   isl (on_voice_click_full (working_calls\<lparr>started := Some (BaseException [99])\<rparr>) init_state) \<and>
   is_recording (snd (projl (on_voice_click_full
                               (working_calls\<lparr>started := Some (BaseException [99])\<rparr>)
                               init_state))) \<and>
   is_recording recording_state \<and> list_all (\<lambda>t. t = Completed) (tasks recording_state) \<and>
   recording_data recording_state \<noteq> [] \<and>
   capture_raise (working_calls\<lparr>written := Some (Exception [119])\<rparr>) recording_state =
     Some (Exception [119]) \<and>
   log_area (projr (on_voice_click_full (working_calls\<lparr>written := Some (Exception [119])\<rparr>)
                      recording_state)) = [LogListening, LogError [119]] \<and>
   idle (projr (on_voice_click_full (working_calls\<lparr>written := Some (Exception [119])\<rparr>)
                  recording_state)) \<and>
   capture_raise (working_calls\<lparr>stopped := Some (BaseException [99])\<rparr>) recording_state =
     Some (BaseException [99]) \<and>
   isl (on_voice_click_full (working_calls\<lparr>stopped := Some (BaseException [99])\<rparr>)
          recording_state) \<and>
   log_area (snd (projl (on_voice_click_full (working_calls\<lparr>stopped := Some (BaseException [99])\<rparr>)
                           recording_state))) = [LogListening] \<and>
   capture_raise (working_calls\<lparr>awaited := Some (Exception [114])\<rparr>) recording_state = None \<and>
   awaited (working_calls\<lparr>awaited := Some (Exception [114])\<rparr>) = Some (Exception [114]) \<and>
   log_area (projr (on_voice_click_full (working_calls\<lparr>awaited := Some (Exception [114])\<rparr>)
                      recording_state)) = [LogListening, LogTranscribing, LogError [114]] \<and>
   capture_raise (working_calls\<lparr>awaited := Some (BaseException [99])\<rparr>) recording_state = None \<and>
   awaited (working_calls\<lparr>awaited := Some (BaseException [99])\<rparr>) = Some (BaseException [99]) \<and>
   isl (on_voice_click_full (working_calls\<lparr>awaited := Some (BaseException [99])\<rparr>)
          recording_state) \<and>
   log_area (snd (projl (on_voice_click_full (working_calls\<lparr>awaited := Some (BaseException [99])\<rparr>)
                           recording_state))) = [LogListening, LogTranscribing] \<and>
   capture_raise (working_calls\<lparr>transcribing := asr (working_env (PostRaises [111]))\<rparr>)
     recording_state = None \<and>
   awaited (working_calls\<lparr>transcribing := asr (working_env (PostRaises [111]))\<rparr>) = None \<and>
   asr_error (transcribing (working_calls\<lparr>transcribing := asr (working_env (PostRaises [111]))\<rparr>)) =
     Some [111] \<and>
   log_area (projr (on_voice_click_full
                      (working_calls\<lparr>transcribing := asr (working_env (PostRaises [111]))\<rparr>)
                      recording_state)) =
     [LogListening, LogTranscribing, LogASRError [111], LogFailed] \<and>
   idle (projr (on_voice_click_full
                  (working_calls\<lparr>transcribing := asr (working_env (PostRaises [111]))\<rparr>)
                  recording_state)) \<and>
   strip [103, 111] = [103, 111] \<and>
   log_area (run_ops (typed_task_ops 0 [103, 111] (Some [114]) []) init_state) =
     [LogYou [103, 111], LogStarting [103, 111], LogError [114]] \<and>
   idle (run_ops (typed_task_ops 0 [103, 111] (Some [114]) []) init_state) \<and>
   \<not> finished first_step \<and>
   log_area (run_ops (typed_task_ops 0 [103, 111] None
                        [StepReturns first_step, StepRaises [115]]) init_state) =
     [LogYou [103, 111], LogStarting [103, 111], LogThinkingPlaceholder,
      LogThinking [112], LogActing [116], LogError [115]] \<and>
   idle (run_ops (typed_task_ops 0 [103, 111] None
                    [StepReturns first_step, StepRaises [115]]) init_state)"
proof -
  have s: "strip [103, 111] = [103, 111]"
    by (simp add: strip_def isspace_def)
  have f: "\<not> finished first_step"
    by (simp add: first_step_def)
  have i: "length (tasks init_state) = 0" "log_area init_state = []"
    by (simp_all add: init_state_def)
  have n: "\<not> is_recording init_state"
    by (simp add: init_state_def)
  have r: "is_recording recording_state" "list_all (\<lambda>t. t = Completed) (tasks recording_state)"
    "recording_data recording_state \<noteq> []" "log_area recording_state = [LogListening]"
    by (simp_all add: recording_state_eq)
  have h: "start_raise (working_calls\<lparr>queried := Inl (Exception [110])\<rparr>) = Some (Exception [110])"
    "start_raise (working_calls\<lparr>started := Some (BaseException [99])\<rparr>) =
       Some (BaseException [99])"
    "capture_raise (working_calls\<lparr>written := Some (Exception [119])\<rparr>) recording_state =
       Some (Exception [119])"
    "capture_raise (working_calls\<lparr>stopped := Some (BaseException [99])\<rparr>) recording_state =
       Some (BaseException [99])"
    "capture_raise (working_calls\<lparr>awaited := Some (Exception [114])\<rparr>) recording_state = None"
    "capture_raise (working_calls\<lparr>awaited := Some (BaseException [99])\<rparr>) recording_state = None"
    "capture_raise (working_calls\<lparr>transcribing := asr (working_env (PostRaises [111]))\<rparr>)
       recording_state = None"
    "awaited (working_calls\<lparr>transcribing := asr (working_env (PostRaises [111]))\<rparr>) = None"
    "asr_error (transcribing (working_calls\<lparr>transcribing := asr (working_env (PostRaises [111]))\<rparr>)) =
       Some [111]"
    by (simp_all add: working_calls_eq start_raise_def capture_raise_def close_stream_full_def
        recording_state_eq asr_error_def request_error_def working_env_def)
  from s f n r h init_state_idle
    exceptions_caught_at_stage_boundary
      [where s = init_state and env = "working_calls\<lparr>queried := Inl (Exception [110])\<rparr>"
        and e = "[110]" and ?env0.0 = "working_calls\<lparr>started := Some (BaseException [99])\<rparr>"
        and ?e0.0 = "[99]" and ?s1.0 = recording_state
        and ?env1.0 = "working_calls\<lparr>written := Some (Exception [119])\<rparr>" and ?e1.0 = "[119]"
        and ?env2.0 = "working_calls\<lparr>stopped := Some (BaseException [99])\<rparr>" and ?e2.0 = "[99]"
        and ?env3.0 = "working_calls\<lparr>awaited := Some (Exception [114])\<rparr>" and ?e3.0 = "[114]"
        and ?env4.0 = "working_calls\<lparr>awaited := Some (BaseException [99])\<rparr>" and ?e4.0 = "[99]"
        and ?env5.0 = "working_calls\<lparr>transcribing := asr (working_env (PostRaises [111]))\<rparr>"
        and ?e5.0 = "[111]" and t = "[103, 111]" and ?e7.0 = "[114]" and outcomes = "[]"
        and pre = "[first_step]" and ?e8.0 = "[115]" and post = "[]"]
  show ?thesis
    unfolding i
    by (simp add: step_lines_def) (simp add: first_step_def)
qed

section \<open>The step loop\<close>

text \<open>
  C4. For every submitted text that is not blank, the coroutine first calls
  \<^verbatim>\<open>agent.reset()\<close>, then \<^verbatim>\<open>agent.step\<close> with the trimmed text, then
  \<^verbatim>\<open>agent.step\<close> without an argument once for every result that is not finished; it
  logs each result as \<open>Thinking\<close> then \<open>Acting\<close>. As long as no result is finished
  the coroutine stays suspended in a step call and logs no \<open>Finished\<close> line; at the
  first finished result it logs \<open>Finished\<close> with that result's message, makes no further
  call and ends.
\<close>

theorem step_loop_protocol:
  "(strip t \<noteq> [] \<and> (\<forall>x\<in>set rs. \<not> finished x) \<longrightarrow>
      calls (run_ops (typed_task_ops (length (tasks s)) t None (map StepReturns rs)) s) =
        calls s @ AgentReset # AgentStep (Some (strip t)) # replicate (length rs) (AgentStep None) \<and>
      log_area (run_ops (typed_task_ops (length (tasks s)) t None (map StepReturns rs)) s) =
        log_area s @ [LogYou (strip t), LogStarting (strip t), LogThinkingPlaceholder] @
        step_lines rs \<and>
      tasks (run_ops (typed_task_ops (length (tasks s)) t None (map StepReturns rs)) s) =
        tasks s @ [AwaitingStep]) \<and>
   (strip t \<noteq> [] \<and> (\<forall>x\<in>set pre. \<not> finished x) \<and> finished r \<longrightarrow>
      calls (run_ops (typed_task_ops (length (tasks s)) t None
                        (map StepReturns (pre @ r # post))) s) =
        calls s @ AgentReset # AgentStep (Some (strip t)) # replicate (length pre) (AgentStep None) \<and>
      log_area (run_ops (typed_task_ops (length (tasks s)) t None
                           (map StepReturns (pre @ r # post))) s) =
        log_area s @ [LogYou (strip t), LogStarting (strip t), LogThinkingPlaceholder] @
        step_lines (pre @ [r]) @ [LogFinished (message r)] \<and>
      tasks (run_ops (typed_task_ops (length (tasks s)) t None
                        (map StepReturns (pre @ r # post))) s) =
        tasks s @ [Completed])"
proof (intro conjI impI)
  assume a: "strip t \<noteq> [] \<and> (\<forall>x\<in>set rs. \<not> finished x)"
  define s1 where "s1 = run_ops [TypeText t, Submit] s"
  have s1: "s1 = s\<lparr>input_value := [], log_area := log_area s @ [LogYou (strip t)],
       tasks := tasks s @ [Scheduled (strip t)]\<rparr>"
    unfolding s1_def by (rule submit_task) (use a in simp)
  have run: "run_ops (typed_task_ops (length (tasks s)) t None (map StepReturns rs)) s =
     s1\<lparr>log_area := log_area s1 @ [LogStarting (strip t), LogThinkingPlaceholder] @ step_lines rs,
       calls := calls s1 @ AgentReset # AgentStep (Some (strip t)) #
                  replicate (length rs) (AgentStep None),
       tasks := (tasks s1)[length (tasks s) := AwaitingStep]\<rparr>"
    unfolding typed_task_split s1_def [symmetric]
    by (rule run_scheduled_pending) (use a in \<open>simp_all add: s1\<close>)
  show "calls (run_ops (typed_task_ops (length (tasks s)) t None (map StepReturns rs)) s) =
        calls s @ AgentReset # AgentStep (Some (strip t)) # replicate (length rs) (AgentStep None)"
    and "log_area (run_ops (typed_task_ops (length (tasks s)) t None (map StepReturns rs)) s) =
        log_area s @ [LogYou (strip t), LogStarting (strip t), LogThinkingPlaceholder] @
        step_lines rs"
    and "tasks (run_ops (typed_task_ops (length (tasks s)) t None (map StepReturns rs)) s) =
        tasks s @ [AwaitingStep]"
    unfolding run by (simp_all add: s1)
next
  assume a: "strip t \<noteq> [] \<and> (\<forall>x\<in>set pre. \<not> finished x) \<and> finished r"
  define s1 where "s1 = run_ops [TypeText t, Submit] s"
  have s1: "s1 = s\<lparr>input_value := [], log_area := log_area s @ [LogYou (strip t)],
       tasks := tasks s @ [Scheduled (strip t)]\<rparr>"
    unfolding s1_def by (rule submit_task) (use a in simp)
  have run: "run_ops (typed_task_ops (length (tasks s)) t None
                        (map StepReturns (pre @ r # post))) s =
     s1\<lparr>log_area := log_area s1 @ [LogStarting (strip t), LogThinkingPlaceholder] @
                   step_lines (pre @ [r]) @ [LogFinished (message r)],
       calls := calls s1 @ AgentReset # AgentStep (Some (strip t)) #
                  replicate (length pre) (AgentStep None),
       tasks := (tasks s1)[length (tasks s) := Completed]\<rparr>"
    unfolding typed_task_split s1_def [symmetric]
    by (rule run_scheduled_finished) (use a in \<open>simp_all add: s1\<close>)
  show "calls (run_ops (typed_task_ops (length (tasks s)) t None
                        (map StepReturns (pre @ r # post))) s) =
        calls s @ AgentReset # AgentStep (Some (strip t)) # replicate (length pre) (AgentStep None)"
    and "log_area (run_ops (typed_task_ops (length (tasks s)) t None
                           (map StepReturns (pre @ r # post))) s) =
        log_area s @ [LogYou (strip t), LogStarting (strip t), LogThinkingPlaceholder] @
        step_lines (pre @ [r]) @ [LogFinished (message r)]"
    and "tasks (run_ops (typed_task_ops (length (tasks s)) t None
                        (map StepReturns (pre @ r # post))) s) =
        tasks s @ [Completed]"
    unfolding run by (simp_all add: s1)
qed

theorem step_loop_protocol_witness:
  "strip [32, 103, 111] = [103, 111] \<and> \<not> finished first_step \<and> finished last_step \<and>
   calls (run_ops (typed_task_ops 0 [32, 103, 111] None [StepReturns first_step]) init_state) =
     [AgentReset, AgentStep (Some [103, 111]), AgentStep None] \<and>
   log_area (run_ops (typed_task_ops 0 [32, 103, 111] None [StepReturns first_step]) init_state) =
     [LogYou [103, 111], LogStarting [103, 111], LogThinkingPlaceholder,
      LogThinking [112], LogActing [116]] \<and>
   tasks (run_ops (typed_task_ops 0 [32, 103, 111] None [StepReturns first_step]) init_state) =
     [AwaitingStep] \<and>
   calls (run_ops (typed_task_ops 0 [32, 103, 111] None
                     [StepReturns first_step, StepReturns last_step, StepReturns first_step])
            init_state) =
     [AgentReset, AgentStep (Some [103, 111]), AgentStep None] \<and>
   log_area (run_ops (typed_task_ops 0 [32, 103, 111] None
                        [StepReturns first_step, StepReturns last_step, StepReturns first_step])
               init_state) =
     [LogYou [103, 111], LogStarting [103, 111], LogThinkingPlaceholder,
      LogThinking [112], LogActing [116], LogThinking [118], LogActing [110],
      LogFinished (Some [100])] \<and>
   tasks (run_ops (typed_task_ops 0 [32, 103, 111] None
                     [StepReturns first_step, StepReturns last_step, StepReturns first_step])
            init_state) = [Completed]"
proof -
  have s: "strip [32, 103, 111] = [103, 111]"
    by (simp add: strip_def isspace_def)
  have f: "\<not> finished first_step \<and> finished last_step"
    by (simp add: first_step_def last_step_def)
  have i: "length (tasks init_state) = 0" "calls init_state = []" "log_area init_state = []"
    "tasks init_state = []"
    by (simp_all add: init_state_def)
  from s f step_loop_protocol
    [of "[32, 103, 111]" "[first_step]" init_state "[first_step]" last_step "[first_step]"]
  show ?thesis
    unfolding i by (simp add: step_lines_def) (simp add: first_step_def last_step_def)
qed

section \<open>How a failed transcription is reported\<close>

text \<open>
  C5, as stated: a result whose text field is empty or missing is reported as a failure
  kind of its own, which the caller can tell from an authorization failure. It is not:
  \<^verbatim>\<open>transcribe_audio\<close> returns the empty text for a missing field and for a response
  with status 401 alike.
\<close>

theorem empty_result_distinct_counterexample:
  "fst (transcribe_audio \<lparr>open_outcome = None, response = JsonObject None\<rparr>
          (Some [97]) init_state) =
   fst (transcribe_audio \<lparr>open_outcome = None, response = HttpError 401 [52, 48, 49]\<rparr>
          (Some [97]) init_state)"
  by (simp add: transcribe_audio_def transcribe_body_def)

text \<open>
  C5, amended. \<^verbatim>\<open>transcribe_audio\<close> returns the empty text both when the text field is
  empty or missing and when the request fails (network, authorization, decoding), and the
  click that stops the recording logs the same line \<open>Failed\<close> for both, once; a failed
  request is marked only by the line \<open>ASR Error\<close> logged before it. In both cases the
  only call is the one request, no task is scheduled, and so the agent is neither reset
  nor stepped.
\<close>

theorem transcription_failure_events:
  "(is_recording s \<and> recording_data s \<noteq> [] \<and> capture_error env1 s = None \<and>
    open_outcome (asr env1) = None \<and>
    (response (asr env1) = JsonObject None \<or> response (asr env1) = JsonObject (Some [])) \<longrightarrow>
      log_area (on_voice_click env1 s) = log_area s @ [LogTranscribing, LogFailed] \<and>
      calls (on_voice_click env1 s) =
        calls s @ [HttpPost (local_path (voice_input_path (tempdir env1)))] \<and>
      tasks (on_voice_click env1 s) = tasks s \<and>
      \<not> is_recording (on_voice_click env1 s) \<and> \<not> button_disabled (on_voice_click env1 s)) \<and>
   (is_recording s \<and> recording_data s \<noteq> [] \<and> capture_error env2 s = None \<and>
    open_outcome (asr env2) = None \<and> request_error (response (asr env2)) = Some e \<longrightarrow>
      log_area (on_voice_click env2 s) =
        log_area s @ [LogTranscribing, LogASRError e, LogFailed] \<and>
      calls (on_voice_click env2 s) =
        calls s @ [HttpPost (local_path (voice_input_path (tempdir env2)))] \<and>
      tasks (on_voice_click env2 s) = tasks s \<and>
      \<not> is_recording (on_voice_click env2 s) \<and> \<not> button_disabled (on_voice_click env2 s))"
proof (intro conjI impI)
  assume a: "is_recording s \<and> recording_data s \<noteq> [] \<and> capture_error env1 s = None \<and>
    open_outcome (asr env1) = None \<and>
    (response (asr env1) = JsonObject None \<or> response (asr env1) = JsonObject (Some []))"
  then have c: "on_voice_click env1 s =
     s\<lparr>button_disabled := False, is_recording := False,
       log_area := log_area s @ [LogTranscribing, LogFailed],
       calls := calls s @ [HttpPost (local_path (voice_input_path (tempdir env1)))]\<rparr>"
    by (intro stop_click_no_text) simp_all
  show "log_area (on_voice_click env1 s) = log_area s @ [LogTranscribing, LogFailed]"
    and "calls (on_voice_click env1 s) =
        calls s @ [HttpPost (local_path (voice_input_path (tempdir env1)))]"
    and "tasks (on_voice_click env1 s) = tasks s"
    and "\<not> is_recording (on_voice_click env1 s)"
    and "\<not> button_disabled (on_voice_click env1 s)"
    unfolding c by simp_all
next
  assume b: "is_recording s \<and> recording_data s \<noteq> [] \<and> capture_error env2 s = None \<and>
    open_outcome (asr env2) = None \<and> request_error (response (asr env2)) = Some e"
  then have "asr_error (asr env2) = Some e"
    by (simp add: asr_error_def)
  with b have c: "on_voice_click env2 s =
     s\<lparr>button_disabled := False, is_recording := False,
       log_area := log_area s @ [LogTranscribing, LogASRError e, LogFailed],
       calls := (if open_outcome (asr env2) = None
                 then calls s @ [HttpPost (local_path (voice_input_path (tempdir env2)))]
                 else calls s)\<rparr>"
    by (intro stop_click_asr_error) simp_all
  show "log_area (on_voice_click env2 s) =
        log_area s @ [LogTranscribing, LogASRError e, LogFailed]"
    and "calls (on_voice_click env2 s) =
        calls s @ [HttpPost (local_path (voice_input_path (tempdir env2)))]"
    and "tasks (on_voice_click env2 s) = tasks s"
    and "\<not> is_recording (on_voice_click env2 s)"
    and "\<not> button_disabled (on_voice_click env2 s)"
    unfolding c using b by simp_all
qed

theorem transcription_failure_events_witness:
  "is_recording recording_state \<and> recording_data recording_state \<noteq> [] \<and>
   capture_error (working_env (JsonObject None)) recording_state = None \<and>
   open_outcome (asr (working_env (JsonObject None))) = None \<and>
   response (asr (working_env (JsonObject None))) = JsonObject None \<and>
   log_area (on_voice_click (working_env (JsonObject None)) recording_state) =
     [LogListening, LogTranscribing, LogFailed] \<and>
   tasks (on_voice_click (working_env (JsonObject None)) recording_state) = [] \<and>
   capture_error (working_env (HttpError 401 [52, 48, 49])) recording_state = None \<and>
   open_outcome (asr (working_env (HttpError 401 [52, 48, 49]))) = None \<and>
   request_error (response (asr (working_env (HttpError 401 [52, 48, 49])))) = Some [52, 48, 49] \<and>
   log_area (on_voice_click (working_env (HttpError 401 [52, 48, 49])) recording_state) =
     [LogListening, LogTranscribing, LogASRError [52, 48, 49], LogFailed] \<and>
   tasks (on_voice_click (working_env (HttpError 401 [52, 48, 49])) recording_state) = []"
proof -
  have r: "request_error (HttpError 401 [52, 48, 49]) = Some [52, 48, 49]"
    by (simp add: request_error_def)
  from recording_state_ready [of "JsonObject None"]
    recording_state_ready [of "HttpError 401 [52, 48, 49]"] r
    transcription_failure_events
      [of recording_state "working_env (JsonObject None)"
        "working_env (HttpError 401 [52, 48, 49])" "[52, 48, 49]"]
  show ?thesis
    by (simp add: recording_state_eq)
qed

section \<open>The request and the returned text\<close>

text \<open>
  C6, as stated: \<^verbatim>\<open>transcribe_audio\<close> returns the service's text trimmed of
  surrounding whitespace. It does not: for the answer \<^verbatim>\<open>" hi "\<close> it returns
  \<^verbatim>\<open>" hi "\<close>, which is not its trimmed form.
\<close>

theorem transcribe_audio_trimmed_counterexample:
  "fst (transcribe_audio \<lparr>open_outcome = None, response = JsonObject (Some [32, 104, 105, 32])\<rparr>
          (Some [97]) init_state) \<noteq> strip [32, 104, 105, 32]"
  by (simp add: transcribe_audio_def transcribe_body_def strip_def isspace_def)

text \<open>
  C6, amended. For every non-empty file path whose file can be opened,
  \<^verbatim>\<open>transcribe_audio\<close> issues exactly one request, and when the service answers with
  a text it returns that text unchanged. The surrounding whitespace is removed later, by
  \<^verbatim>\<open>send_message\<close>: after the click that stops a recording, the line of the
  transcription carries the text as returned, and the line \<open>You\<close> and the scheduled
  task carry the trimmed text.
\<close>

theorem transcribe_audio_one_request:
  "(p \<noteq> [] \<and> open_outcome env = None \<longrightarrow>
      calls (snd (transcribe_audio env (Some p) s)) = calls s @ [HttpPost (local_path p)]) \<and>
   (p \<noteq> [] \<and> open_outcome env = None \<and> response env = JsonObject (Some t) \<longrightarrow>
      fst (transcribe_audio env (Some p) s) = t) \<and>
   (is_recording s1 \<and> recording_data s1 \<noteq> [] \<and> capture_error env1 s1 = None \<and>
    open_outcome (asr env1) = None \<and> response (asr env1) = JsonObject (Some t1) \<and>
    strip t1 \<noteq> [] \<longrightarrow>
      calls (on_voice_click env1 s1) =
        calls s1 @ [HttpPost (local_path (voice_input_path (tempdir env1)))] \<and>
      log_area (on_voice_click env1 s1) =
        log_area s1 @ [LogTranscribing, LogTranscribed t1, LogYou (strip t1)] \<and>
      tasks (on_voice_click env1 s1) = tasks s1 @ [Scheduled (strip t1)])"
proof (intro conjI impI)
  assume a: "p \<noteq> [] \<and> open_outcome env = None"
  show "calls (snd (transcribe_audio env (Some p) s)) = calls s @ [HttpPost (local_path p)]"
  proof (cases "response env")
    case (JsonObject x)
    with a show ?thesis by (simp add: transcribe_audio_object call_def)
  qed (use a in \<open>simp_all add: transcribe_audio_request_raises request_error_def add_log_def
        call_def\<close>)
next
  assume "p \<noteq> [] \<and> open_outcome env = None \<and> response env = JsonObject (Some t)"
  then show "fst (transcribe_audio env (Some p) s) = t"
    by (simp add: transcribe_audio_object)
next
  assume b: "is_recording s1 \<and> recording_data s1 \<noteq> [] \<and> capture_error env1 s1 = None \<and>
    open_outcome (asr env1) = None \<and> response (asr env1) = JsonObject (Some t1) \<and>
    strip t1 \<noteq> []"
  then have "t1 \<noteq> []" by (auto simp: strip_def)
  with b have c: "on_voice_click env1 s1 =
     send_message
       (s1\<lparr>button_disabled := False, is_recording := False, input_value := t1,
          log_area := log_area s1 @ [LogTranscribing, LogTranscribed t1],
          calls := calls s1 @ [HttpPost (local_path (voice_input_path (tempdir env1)))]\<rparr>)"
    by (simp add: stop_click_text)
  show "calls (on_voice_click env1 s1) =
        calls s1 @ [HttpPost (local_path (voice_input_path (tempdir env1)))]"
    and "log_area (on_voice_click env1 s1) =
        log_area s1 @ [LogTranscribing, LogTranscribed t1, LogYou (strip t1)]"
    and "tasks (on_voice_click env1 s1) = tasks s1 @ [Scheduled (strip t1)]"
    unfolding c using b by (simp_all add: send_message_task)
qed

theorem transcribe_audio_one_request_witness:
  "[97] \<noteq> ([] :: pystr) \<and>
   open_outcome (asr (working_env (JsonObject (Some [32, 104, 105, 32])))) = None \<and>
   response (asr (working_env (JsonObject (Some [32, 104, 105, 32])))) =
     JsonObject (Some [32, 104, 105, 32]) \<and>
   calls (snd (transcribe_audio (asr (working_env (JsonObject (Some [32, 104, 105, 32]))))
            (Some [97]) init_state)) = [HttpPost [97]] \<and>
   fst (transcribe_audio (asr (working_env (JsonObject (Some [32, 104, 105, 32]))))
            (Some [97]) init_state) = [32, 104, 105, 32] \<and>
   is_recording recording_state \<and> recording_data recording_state \<noteq> [] \<and>
   capture_error (working_env (JsonObject (Some [32, 104, 105, 32]))) recording_state = None \<and>
   strip [32, 104, 105, 32] = [104, 105] \<and>
   log_area (on_voice_click (working_env (JsonObject (Some [32, 104, 105, 32]))) recording_state) =
     [LogListening, LogTranscribing, LogTranscribed [32, 104, 105, 32], LogYou [104, 105]] \<and>
   tasks (on_voice_click (working_env (JsonObject (Some [32, 104, 105, 32]))) recording_state) =
     [Scheduled [104, 105]]"
proof -
  have s: "strip [32, 104, 105, 32] = [104, 105]"
    by (simp add: strip_def isspace_def)
  have l: "local_path [97] = [97]"
    by (simp add: local_path_def startswith_def file_scheme_def)
  from recording_state_ready [of "JsonObject (Some [32, 104, 105, 32])"] s l
    transcribe_audio_one_request
      [of "[97]" "asr (working_env (JsonObject (Some [32, 104, 105, 32])))" init_state
        "[32, 104, 105, 32]" recording_state "working_env (JsonObject (Some [32, 104, 105, 32]))"
        "[32, 104, 105, 32]"]
  show ?thesis
    by (simp add: recording_state_eq init_state_def)
qed

section \<open>A recording without chunks\<close>

text \<open>
  C7. When the recording is stopped and no chunk was captured, the click issues no
  request to the transcription service and logs no \<open>Transcribing\<close> line; at most it
  logs the error of closing the stream. Afterwards the recording is over, the voice button
  is enabled and no task was begun. This holds for every state that is recording with an
  empty \<^verbatim>\<open>recording_data\<close>, and so for a click that starts a recording followed at
  once by the click that stops it.
\<close>

theorem empty_recording_skips_transcription:
  "(is_recording s \<and> recording_data s = [] \<longrightarrow>
      calls (on_voice_click env s) = calls s \<and>
      log_area (on_voice_click env s) =
        log_area s @ (case close_stream env s of Some e \<Rightarrow> [LogError e] | None \<Rightarrow> []) \<and>
      LogTranscribing \<notin> set (drop (length (log_area s)) (log_area (on_voice_click env s))) \<and>
      tasks (on_voice_click env s) = tasks s \<and>
      \<not> is_recording (on_voice_click env s) \<and>
      \<not> button_disabled (on_voice_click env s)) \<and>
   (\<not> is_recording s0 \<and> device env1 = DeviceOk rate \<longrightarrow>
      calls (run_ops [VoiceClick env1, VoiceClick env2] s0) = calls s0 \<and>
      log_area (run_ops [VoiceClick env1, VoiceClick env2] s0) =
        log_area s0 @ LogListening #
          (case stream_stop env2 of
             Some e \<Rightarrow> [LogError e]
           | None \<Rightarrow> (case stream_close env2 of Some e \<Rightarrow> [LogError e] | None \<Rightarrow> [])) \<and>
      tasks (run_ops [VoiceClick env1, VoiceClick env2] s0) = tasks s0 \<and>
      \<not> is_recording (run_ops [VoiceClick env1, VoiceClick env2] s0) \<and>
      \<not> button_disabled (run_ops [VoiceClick env1, VoiceClick env2] s0))"
proof (intro conjI impI)
  assume a: "is_recording s \<and> recording_data s = []"
  show "calls (on_voice_click env s) = calls s"
    and "log_area (on_voice_click env s) =
        log_area s @ (case close_stream env s of Some e \<Rightarrow> [LogError e] | None \<Rightarrow> [])"
    and "tasks (on_voice_click env s) = tasks s"
    and "\<not> is_recording (on_voice_click env s)"
    and "\<not> button_disabled (on_voice_click env s)"
    using a
    by (cases "close_stream env s";
        simp add: stop_click_empty stop_click_capture_error capture_error_def)+
  then show "LogTranscribing \<notin> set (drop (length (log_area s)) (log_area (on_voice_click env s)))"
    by (simp split: option.splits)
next
  assume b: "\<not> is_recording s0 \<and> device env1 = DeviceOk rate"
  define s1 where "s1 = on_voice_click env1 s0"
  have s1: "s1 = s0\<lparr>recording_data := [], is_recording := True, samplerate := rate,
       has_stream := True, log_area := log_area s0 @ [LogListening]\<rparr>"
    unfolding s1_def using b by (simp add: start_click_ok)
  have run: "run_ops [VoiceClick env1, VoiceClick env2] s0 = on_voice_click env2 s1"
    by (simp add: s1_def)
  have c: "close_stream env2 s1 =
      (case stream_stop env2 of Some e \<Rightarrow> Some e | None \<Rightarrow> stream_close env2)"
    by (simp add: s1 close_stream_def)
  have d: "on_voice_click env2 s1 =
      (case close_stream env2 s1 of
         None \<Rightarrow> s1\<lparr>button_disabled := False, is_recording := False\<rparr>
       | Some e \<Rightarrow> s1\<lparr>button_disabled := False, is_recording := False,
                      log_area := log_area s1 @ [LogError e]\<rparr>)"
    by (cases "close_stream env2 s1")
      (simp_all add: stop_click_empty stop_click_capture_error capture_error_def s1)
  show "calls (run_ops [VoiceClick env1, VoiceClick env2] s0) = calls s0"
    unfolding run d by (simp add: s1 split: option.splits)
  show "log_area (run_ops [VoiceClick env1, VoiceClick env2] s0) =
        log_area s0 @ LogListening #
          (case stream_stop env2 of
             Some e \<Rightarrow> [LogError e]
           | None \<Rightarrow> (case stream_close env2 of Some e \<Rightarrow> [LogError e] | None \<Rightarrow> []))"
    unfolding run d c by (simp add: s1 split: option.splits)
  show "tasks (run_ops [VoiceClick env1, VoiceClick env2] s0) = tasks s0"
    unfolding run d by (simp add: s1 split: option.splits)
  show "\<not> is_recording (run_ops [VoiceClick env1, VoiceClick env2] s0)"
    unfolding run d by (simp split: option.splits)
  show "\<not> button_disabled (run_ops [VoiceClick env1, VoiceClick env2] s0)"
    unfolding run d by (simp split: option.splits)
qed

theorem empty_recording_skips_transcription_witness:
  "is_recording (on_voice_click (working_env (JsonObject None)) init_state) \<and>
   recording_data (on_voice_click (working_env (JsonObject None)) init_state) = [] \<and>
   \<not> is_recording init_state \<and>
   device (working_env (JsonObject None)) = DeviceOk 48000 \<and>
   calls (run_ops [VoiceClick (working_env (JsonObject None)),
                   VoiceClick (working_env (JsonObject (Some [104, 105])))] init_state) = [] \<and>
   log_area (run_ops [VoiceClick (working_env (JsonObject None)),
                      VoiceClick (working_env (JsonObject (Some [104, 105])))] init_state) =
     [LogListening] \<and>
   tasks (run_ops [VoiceClick (working_env (JsonObject None)),
                   VoiceClick (working_env (JsonObject (Some [104, 105])))] init_state) = [] \<and>
   \<not> is_recording (run_ops [VoiceClick (working_env (JsonObject None)),
                   VoiceClick (working_env (JsonObject (Some [104, 105])))] init_state)"
  using empty_recording_skips_transcription
    [of "on_voice_click (working_env (JsonObject None)) init_state"
      "working_env (JsonObject (Some [104, 105]))" init_state "working_env (JsonObject None)"
      48000 "working_env (JsonObject (Some [104, 105]))"]
  by (simp add: working_env_def init_state_def on_voice_click_def start_recording_body_def
      stop_recording_body_def close_stream_def add_log_def)

section \<open>Blank submissions\<close>

text \<open>
  C8. Sending a text that is empty or consists of whitespace only, with nothing in
  progress, does nothing: no line is logged, the agent is neither reset nor stepped, no
  coroutine is scheduled, and nothing is in progress afterwards. The state is the one
  before the send (the blank text stays in the input field).
\<close>

theorem blank_submit_is_noop:
  "\<forall>c\<in>set t. isspace c \<Longrightarrow> idle s \<Longrightarrow>
   run_ops [TypeText t, Submit] s = s\<lparr>input_value := t\<rparr> \<and>
   log_area (run_ops [TypeText t, Submit] s) = log_area s \<and>
   calls (run_ops [TypeText t, Submit] s) = calls s \<and>
   tasks (run_ops [TypeText t, Submit] s) = tasks s \<and>
   idle (run_ops [TypeText t, Submit] s)"
  by (simp add: send_message_blank idle_def)

theorem blank_submit_is_noop_witness:
  "isspace 32 \<and> isspace 9 \<and> isspace 12288 \<and> idle init_state \<and>
   run_ops [TypeText [32, 9, 12288], Submit] init_state =
     init_state\<lparr>input_value := [32, 9, 12288]\<rparr> \<and>
   log_area (run_ops [TypeText [32, 9, 12288], Submit] init_state) = [] \<and>
   calls (run_ops [TypeText [32, 9, 12288], Submit] init_state) = [] \<and>
   tasks (run_ops [TypeText [32, 9, 12288], Submit] init_state) = [] \<and>
   idle (run_ops [TypeText [32, 9, 12288], Submit] init_state)"
proof -
  have h1: "\<forall>c\<in>set [32, 9, 12288]. isspace c" by (simp add: isspace_def)
  have h2: "idle init_state" by (rule init_state_idle)
  show ?thesis
    using h1 h2 blank_submit_is_noop [OF h1 h2] by (simp add: init_state_def idle_def)
qed

section \<open>A transcription of whitespace only\<close>

text \<open>
  C9. When the recording is stopped and the service returns a text that is not empty but
  consists of whitespace only, the click logs \<open>Transcribing\<close> and the line carrying that
  text and starts no task: no \<open>Starting\<close> line, no call to the agent (the only call
  is the request), no coroutine scheduled. The text is left in the input field, the
  recording is over and the voice button is enabled.
\<close>

theorem whitespace_transcription_starts_no_task:
  "is_recording s \<Longrightarrow> recording_data s \<noteq> [] \<Longrightarrow> capture_error env s = None \<Longrightarrow>
   open_outcome (asr env) = None \<Longrightarrow> response (asr env) = JsonObject (Some t) \<Longrightarrow>
   t \<noteq> [] \<Longrightarrow> \<forall>c\<in>set t. isspace c \<Longrightarrow>
   log_area (on_voice_click env s) = log_area s @ [LogTranscribing, LogTranscribed t] \<and>
   calls (on_voice_click env s) =
     calls s @ [HttpPost (local_path (voice_input_path (tempdir env)))] \<and>
   tasks (on_voice_click env s) = tasks s \<and>
   input_value (on_voice_click env s) = t \<and>
   \<not> is_recording (on_voice_click env s) \<and>
   \<not> button_disabled (on_voice_click env s)"
  by (simp add: stop_click_text send_message_blank)

theorem whitespace_transcription_starts_no_task_witness:
  "is_recording recording_state \<and> recording_data recording_state \<noteq> [] \<and>
   capture_error (working_env (JsonObject (Some [32, 12288]))) recording_state = None \<and>
   open_outcome (asr (working_env (JsonObject (Some [32, 12288])))) = None \<and>
   response (asr (working_env (JsonObject (Some [32, 12288])))) = JsonObject (Some [32, 12288]) \<and>
   [32, 12288] \<noteq> ([] :: pystr) \<and>
   isspace 32 \<and> isspace 12288 \<and>
   log_area (on_voice_click (working_env (JsonObject (Some [32, 12288]))) recording_state) =
     [LogListening, LogTranscribing, LogTranscribed [32, 12288]] \<and>
   tasks (on_voice_click (working_env (JsonObject (Some [32, 12288]))) recording_state) = [] \<and>
   \<not> is_recording (on_voice_click (working_env (JsonObject (Some [32, 12288]))) recording_state)"
proof -
  let ?env = "working_env (JsonObject (Some [32, 12288]))"
  note r = recording_state_ready [of "JsonObject (Some [32, 12288])"]
  have h1: "is_recording recording_state" using r by simp
  have h2: "recording_data recording_state \<noteq> []" using r by simp
  have h3: "capture_error ?env recording_state = None" using r by simp
  have h4: "open_outcome (asr ?env) = None" using r by simp
  have h5: "response (asr ?env) = JsonObject (Some [32, 12288])" using r by simp
  have h6: "[32, 12288] \<noteq> ([] :: pystr)" by simp
  have h7: "\<forall>c\<in>set [32, 12288]. isspace c" by (simp add: isspace_def)
  from whitespace_transcription_starts_no_task [OF h1 h2 h3 h4 h5 h6 h7] h1 h2 h3 h4 h5 h6 h7
  show ?thesis by (simp add: recording_state_eq)
qed

section \<open>What transcribe_audio returns and lets through\<close>

text \<open>
  C10, as stated: for every file path \<^verbatim>\<open>transcribe_audio\<close> returns a string and never
  propagates an exception. It returns what the reply holds under \<^verbatim>\<open>text\<close>, and that
  need not be a string: for the reply \<^verbatim>\<open>{"text": null}\<close> it returns \<^verbatim>\<open>None\<close>, for
  \<^verbatim>\<open>{"text": 5}\<close> the number. And an exception outside \<^verbatim>\<open>Exception\<close> raised by
  \<^verbatim>\<open>requests.post\<close> propagates.
\<close>

theorem transcribe_returns_string_counterexample:
  "fst (transcribe_audio_full (reply_calls (JObject [(text_key, JNull)])) (Some [97]) init_state) =
     Inr JNull \<and>
   fst (transcribe_audio_full (reply_calls (JObject [(text_key, JNumber 5)])) (Some [97])
          init_state) = Inr (JNumber 5) \<and>
   fst (transcribe_audio_full
          ((reply_calls (JObject []))\<lparr>posted := Some (BaseException [99])\<rparr>) (Some [97])
          init_state) = Inl (BaseException [99])"
  by (simp add: transcribe_audio_full_def transcribe_body_full_def reply_calls_def get_text_def
      text_key_def)

text \<open>
  C10, amended. \<^verbatim>\<open>transcribe_audio\<close> never propagates an \<^verbatim>\<open>Exception\<close>. For a file
  path that is \<^verbatim>\<open>None\<close> or empty it returns the empty string, logs nothing and issues
  no request. When a call inside it raises an \<^verbatim>\<open>Exception\<close> (the file cannot be
  opened, the request fails, the status is an error, the body cannot be decoded or is no
  dictionary) it logs \<open>ASR Error\<close> with the message and returns the empty string; a
  request was issued unless it was \<^verbatim>\<open>open\<close> that raised. An exception outside
  \<^verbatim>\<open>Exception\<close> is not caught: it propagates, and nothing is logged. When no call
  raises, it returns the value the decoded dictionary holds under \<^verbatim>\<open>text\<close>, whatever
  its type, or the empty string when there is none, after exactly one request; the result
  is a string when the service sent a string there.
\<close>

theorem transcribe_audio_full_total:
  "fst (transcribe_audio_full env file_path s) \<noteq> Inl (Exception e) \<and>
   (file_path = None \<or> file_path = Some [] \<longrightarrow>
      transcribe_audio_full env file_path s = (Inr (JString []), s)) \<and>
   (p \<noteq> [] \<and> asr_raise env1 = Some (Exception e1) \<longrightarrow>
      transcribe_audio_full env1 (Some p) s =
        (Inr (JString []),
         add_log (LogASRError e1)
           (if opened env1 = None then call (HttpPost (local_path p)) s else s))) \<and>
   (p \<noteq> [] \<and> asr_raise env2 = Some (BaseException e2) \<longrightarrow>
      fst (transcribe_audio_full env2 (Some p) s) = Inl (BaseException e2) \<and>
      log_area (snd (transcribe_audio_full env2 (Some p) s)) = log_area s) \<and>
   (p \<noteq> [] \<and> asr_raise env3 = None \<and> decoded env3 = Inr (JObject members) \<longrightarrow>
      transcribe_audio_full env3 (Some p) s =
        (Inr (get_text members), call (HttpPost (local_path p)) s)) \<and>
   (p \<noteq> [] \<and> asr_raise env3 = None \<and> decoded env3 = Inr (JObject members) \<and>
    map_of (rev members) text_key = Some (JString t) \<longrightarrow>
      fst (transcribe_audio_full env3 (Some p) s) = Inr (JString t))"
proof (intro conjI impI)
  show "fst (transcribe_audio_full env file_path s) \<noteq> Inl (Exception e)"
    by (rule transcribe_audio_full_no_exception)
next
  assume "file_path = None \<or> file_path = Some []"
  then show "transcribe_audio_full env file_path s = (Inr (JString []), s)"
    by (rule transcribe_audio_full_no_path)
next
  assume "p \<noteq> [] \<and> asr_raise env1 = Some (Exception e1)"
  then show "transcribe_audio_full env1 (Some p) s =
        (Inr (JString []),
         add_log (LogASRError e1)
           (if opened env1 = None then call (HttpPost (local_path p)) s else s))"
    by (simp add: transcribe_audio_full_def transcribe_body_full_raises)
next
  assume a: "p \<noteq> [] \<and> asr_raise env2 = Some (BaseException e2)"
  then show "fst (transcribe_audio_full env2 (Some p) s) = Inl (BaseException e2)"
    by (simp add: transcribe_audio_full_def transcribe_body_full_raises)
  from a show "log_area (snd (transcribe_audio_full env2 (Some p) s)) = log_area s"
    by (simp add: transcribe_audio_full_def transcribe_body_full_raises call_def)
next
  assume a: "p \<noteq> [] \<and> asr_raise env3 = None \<and> decoded env3 = Inr (JObject members)"
  then have "asr_raise env3 = None" "decoded env3 = Inr (JObject members)" by simp_all
  from transcribe_body_full_returns [OF this, of p s] a
  show "transcribe_audio_full env3 (Some p) s =
        (Inr (get_text members), call (HttpPost (local_path p)) s)"
    by (simp add: transcribe_audio_full_def)
next
  assume a: "p \<noteq> [] \<and> asr_raise env3 = None \<and> decoded env3 = Inr (JObject members) \<and>
    map_of (rev members) text_key = Some (JString t)"
  then have "asr_raise env3 = None" "decoded env3 = Inr (JObject members)" by simp_all
  from transcribe_body_full_returns [OF this, of p s] a
  show "fst (transcribe_audio_full env3 (Some p) s) = Inr (JString t)"
    by (simp add: transcribe_audio_full_def get_text_def)
qed

theorem transcribe_audio_full_total_witness:
  "transcribe_audio_full (reply_calls (JObject [])) (Some []) init_state =
     (Inr (JString []), init_state) \<and>
   [97] \<noteq> ([] :: pystr) \<and>
   asr_raise (reply_calls (JArray [])) = Some (Exception [110]) \<and>
   transcribe_audio_full (reply_calls (JArray [])) (Some [97]) init_state =
     (Inr (JString []), add_log (LogASRError [110]) (call (HttpPost [97]) init_state)) \<and>
   asr_raise ((reply_calls (JObject []))\<lparr>opened := Some (Exception [111])\<rparr>) =
     Some (Exception [111]) \<and>
   transcribe_audio_full ((reply_calls (JObject []))\<lparr>opened := Some (Exception [111])\<rparr>)
     (Some [97]) init_state =
     (Inr (JString []), add_log (LogASRError [111]) init_state) \<and>
   asr_raise ((reply_calls (JObject []))\<lparr>posted := Some (BaseException [99])\<rparr>) =
     Some (BaseException [99]) \<and>
   fst (transcribe_audio_full ((reply_calls (JObject []))\<lparr>posted := Some (BaseException [99])\<rparr>)
          (Some [97]) init_state) = Inl (BaseException [99]) \<and>
   asr_raise (reply_calls (JObject [(text_key, JNull), (text_key, JString [104, 105])])) = None \<and>
   decoded (reply_calls (JObject [(text_key, JNull), (text_key, JString [104, 105])])) =
     Inr (JObject [(text_key, JNull), (text_key, JString [104, 105])]) \<and>
   map_of (rev [(text_key, JNull), (text_key, JString [104, 105])]) text_key =
     Some (JString [104, 105]) \<and>
   transcribe_audio_full
     (reply_calls (JObject [(text_key, JNull), (text_key, JString [104, 105])]))
     (Some [97]) init_state =
     (Inr (JString [104, 105]), call (HttpPost [97]) init_state)"
proof -
  have l: "local_path [97] = [97]"
    by (simp add: local_path_def startswith_def file_scheme_def)
  have h: "asr_raise (reply_calls (JArray [])) = Some (Exception [110])"
    "asr_raise ((reply_calls (JObject []))\<lparr>opened := Some (Exception [111])\<rparr>) =
       Some (Exception [111])"
    "asr_raise ((reply_calls (JObject []))\<lparr>posted := Some (BaseException [99])\<rparr>) =
       Some (BaseException [99])"
    "asr_raise (reply_calls (JObject [(text_key, JNull), (text_key, JString [104, 105])])) = None"
    "decoded (reply_calls (JObject [(text_key, JNull), (text_key, JString [104, 105])])) =
       Inr (JObject [(text_key, JNull), (text_key, JString [104, 105])])"
    "map_of (rev [(text_key, JNull), (text_key, JString [104, 105])]) text_key =
       Some (JString [104, 105])"
    "opened (reply_calls (JArray [])) = None"
    by (simp_all add: asr_raise_def reply_calls_def)
  from l h transcribe_audio_full_total
    [where file_path = "Some []" and env = "reply_calls (JObject [])" and s = init_state
      and p = "[97]" and ?env1.0 = "reply_calls (JArray [])" and ?e1.0 = "[110]"
      and ?env2.0 = "(reply_calls (JObject []))\<lparr>posted := Some (BaseException [99])\<rparr>"
      and ?e2.0 = "[99]"
      and ?env3.0 = "reply_calls (JObject [(text_key, JNull), (text_key, JString [104, 105])])"
      and members = "[(text_key, JNull), (text_key, JString [104, 105])]" and t = "[104, 105]"]
    transcribe_audio_full_total
    [where file_path = "Some []" and env = "reply_calls (JObject [])" and s = init_state
      and p = "[97]"
      and ?env1.0 = "(reply_calls (JObject []))\<lparr>opened := Some (Exception [111])\<rparr>"
      and ?e1.0 = "[111]"
      and ?env2.0 = "(reply_calls (JObject []))\<lparr>posted := Some (BaseException [99])\<rparr>"
      and ?e2.0 = "[99]"
      and ?env3.0 = "reply_calls (JObject [(text_key, JNull), (text_key, JString [104, 105])])"
      and members = "[(text_key, JNull), (text_key, JString [104, 105])]" and t = "[104, 105]"]
  show ?thesis
    by (simp add: get_text_def)
qed

end
